theory Spec2Isabelle
  imports Complex_Main
begin

section \<open>Data model\<close>

text \<open>
  The pricing classes of the repository (\<^verbatim>\<open>Shout\<close>, \<^verbatim>\<open>Chooser\<close>, \<^verbatim>\<open>Bermudan\<close>) are
  embedded over exact real arithmetic: a Python or numpy float is a \<^typ>\<open>real\<close>. Where an
  operation of the source leaves its domain the outcome is written out: a raised
  exception is a value of \<open>error\<close>, a numpy \<^verbatim>\<open>nan\<close> is the value \<open>NaN\<close>.
\<close>

datatype error = InvalidParameter | UnsupportedMethod | ValueError | ZeroDivisionError
  | OverflowError | AttributeError | IndexError

datatype npfloat = Num real | NaN

record stock =
  S0 :: real
  vol :: real
  q :: real

text \<open>The dictionary returned by \<^verbatim>\<open>self.LT_specs(n)\<close>, one field per key.\<close>

record lt_specs =
  sp_dt :: real
  sp_u :: real
  sp_d :: real
  sp_a :: real
  sp_p :: real
  sp_df_T :: real
  sp_df_dt :: real

text \<open>
  The price specification object \<^verbatim>\<open>px_spec\<close>: the keyword arguments of \<^verbatim>\<open>calc_px\<close> and
  the results added by the pricing methods. \<open>None\<close> is an attribute that has not been set.
\<close>

record price_spec =
  method_name :: string
  nsteps :: "int option"
  npaths :: "int option"
  keep_hist :: bool
  px :: "npfloat option"
  LT_specs_used :: "lt_specs option"
  ref_tree :: "real list list option"
  opt_tree :: "real list list option"
  R :: "int option"
  seed :: "int option"
  terminal_payouts :: "npfloat list list option"
  payouts :: "npfloat list list option"
  stock_price_paths :: "npfloat list list option"

record option_valuation =
  ref :: stock
  K :: real
  T :: real
  signCP :: real
  rf_r :: real
  px_spec :: price_spec

record chooser = option_valuation +
  tau :: "real option"

text \<open>\<^verbatim>\<open>Shout.__init__\<close> stores its own \<^verbatim>\<open>q\<close> beside the one of the reference asset.\<close>

record shout = option_valuation +
  q_shout :: real

record bermudan = option_valuation +
  tex :: "real list"

text \<open>
  \<^verbatim>\<open>PriceSpec(method=..., nsteps=..., npaths=..., keep_hist=..., R=..., seed=...)\<close>: a fresh
  price specification holding the keyword arguments and no result.
\<close>

definition PriceSpec ::
  "string \<Rightarrow> int option \<Rightarrow> int option \<Rightarrow> bool \<Rightarrow> int option \<Rightarrow> int option \<Rightarrow> price_spec" where
  "PriceSpec m ns np kh deg sd =
     \<lparr>method_name = m, nsteps = ns, npaths = np, keep_hist = kh, px = None,
      LT_specs_used = None, ref_tree = None, opt_tree = None, R = deg, seed = sd,
      terminal_payouts = None, payouts = None, stock_price_paths = None\<rparr>"

text \<open>\<^verbatim>\<open>getattr(self.px_spec, 'nsteps', 3)\<close>: 3 stands for an unset step count.\<close>

definition getattr_nsteps :: "price_spec \<Rightarrow> int" where
  "getattr_nsteps ps = (case nsteps ps of None \<Rightarrow> 3 | Some m \<Rightarrow> m)"

text \<open>The price a pricing call leaves in the price specification, or the error it raised.\<close>

definition px_of :: "error + 'a option_valuation_scheme \<Rightarrow> error + npfloat option" where
  "px_of r = map_sum id (\<lambda>s. px (px_spec s)) r"

section \<open>Lattice parameters\<close>

text \<open>
  Modelled from the spec: \<^verbatim>\<open>OptionValuation.LT_specs\<close>, the method of the base class that
  computes the lattice parameters, is not among the source files. Section 4.1 of the
  specification: \<open>dt = T/n\<close>, \<open>u = exp(\<sigma>\<surd>dt)\<close>, \<open>d = 1/u\<close>, \<open>a = exp((r-q) dt)\<close>,
  \<open>p = (a-d)/(u-d)\<close>, \<open>df_dt = exp(-r dt)\<close>, \<open>df_T = exp(-r T)\<close>; it fails with
  \<open>InvalidParameter\<close> if \<open>\<sigma> \<le> 0\<close>, \<open>T \<le> 0\<close>, \<open>n < 1\<close> or the computed \<open>p\<close> is outside
  \<open>[0,1]\<close>.
\<close>

definition LT_specs :: "'a option_valuation_scheme \<Rightarrow> int \<Rightarrow> error + lt_specs" where
  "LT_specs self n =
     (let dt = T self / real_of_int n;
          u = exp (vol (ref self) * sqrt dt);
          d = 1 / u;
          a = exp ((rf_r self - q (ref self)) * dt);
          p = (a - d) / (u - d)
      in if vol (ref self) \<le> 0 \<or> T self \<le> 0 \<or> n < 1 \<or> p < 0 \<or> 1 < p
         then Inl InvalidParameter
         else Inr \<lparr>sp_dt = dt, sp_u = u, sp_d = d, sp_a = a, sp_p = p,
                   sp_df_T = exp (- rf_r self * T self),
                   sp_df_dt = exp (- rf_r self * dt)\<rparr>)"

section \<open>Lattice vectors\<close>

text \<open>
  \<^verbatim>\<open>S0 * d ** arange(n, -1, -1) * u ** arange(0, n + 1)\<close>: the terminal asset prices.
\<close>

definition terminal_prices :: "real \<Rightarrow> lt_specs \<Rightarrow> nat \<Rightarrow> real list" where
  "terminal_prices s0 sp n =
     map2 (\<lambda>i j. s0 * sp_d sp ^ i * sp_u sp ^ j) (rev [0..<Suc n]) [0..<Suc n]"

text \<open>\<^verbatim>\<open>maximum(self.signCP * (S - self.K), 0)\<close>: the intrinsic payout of each node.\<close>

definition payout :: "'a option_valuation_scheme \<Rightarrow> real list \<Rightarrow> real list" where
  "payout self S = map (\<lambda>s. max (signCP self * (s - K self)) 0) S"

text \<open>
  \<^verbatim>\<open>df_dt * ((1 - p) * O[:i] + p * O[1:])\<close>: the discounted expectation one step back.
  In every loop below \<open>Ov\<close> has \<open>i + 1\<close> entries, so both slices have \<open>i\<close>.
\<close>

definition prior_O :: "lt_specs \<Rightarrow> nat \<Rightarrow> real list \<Rightarrow> real list" where
  "prior_O sp i Ov =
     map2 (\<lambda>x y. sp_df_dt sp * ((1 - sp_p sp) * x + sp_p sp * y)) (take i Ov) (drop 1 Ov)"

text \<open>\<^verbatim>\<open>d * S[1:i+1]\<close>: the asset prices one step back.\<close>

definition prior_S :: "lt_specs \<Rightarrow> nat \<Rightarrow> real list \<Rightarrow> real list" where
  "prior_S sp i S = map (\<lambda>s. sp_d sp * s) (take i (drop 1 S))"

section \<open>Chooser: lattice pricing\<close>

text \<open>
  The loop \<^verbatim>\<open>for i in range(n, 0, -1)\<close> of \<^verbatim>\<open>Chooser._calc_LT\<close> (branch \<^verbatim>\<open>keep_hist\<close>), on
  the state \<open>(S, O, S_tree, O_tree)\<close>. The first argument counts \<open>i\<close> down.
\<close>

fun Chooser_LT_loop ::
  "lt_specs \<Rightarrow> nat \<Rightarrow> real list \<times> real list \<times> real list list \<times> real list list
     \<Rightarrow> real list \<times> real list \<times> real list list \<times> real list list" where
  "Chooser_LT_loop sp 0 st = st"
| "Chooser_LT_loop sp (Suc k) (S, Ov, S_tree, O_tree) =
     (let Ov' = prior_O sp (Suc k) Ov;
          S' = prior_S sp (Suc k) S
      in Chooser_LT_loop sp k (S', Ov', S' # S_tree, Ov' # O_tree))"

text \<open>\<^verbatim>\<open>numpy.cumsum\<close>, with the running sum as accumulator.\<close>

fun cumsum_from :: "real \<Rightarrow> real list \<Rightarrow> real list" where
  "cumsum_from acc [] = []"
| "cumsum_from acc (x # xs) = (acc + x) # cumsum_from (acc + x) xs"

definition cumsum :: "real list \<Rightarrow> real list" where
  "cumsum xs = cumsum_from 0 xs"

text \<open>
  The branch without history: \<^verbatim>\<open>csl = insert(cumsum(log(arange(n) + 1)), 0, 0)\<close>,
  \<^verbatim>\<open>tmp = csl[n] - csl - csl[::-1] + log(p) * arange(n + 1) + log(1 - p) * arange(n + 1)[::-1]\<close>
  and \<^verbatim>\<open>out = df_T * sum(exp(tmp) * tuple(O))\<close>.
  numpy's \<^verbatim>\<open>log\<close> gives \<^verbatim>\<open>-inf\<close> at 0 and \<^verbatim>\<open>nan\<close> below 0; both vectors \<^verbatim>\<open>arange(n + 1)\<close>
  and its reverse hold a 0, and \<^verbatim>\<open>-inf * 0\<close> is \<^verbatim>\<open>nan\<close>, so outside \<open>0 < p < 1\<close> an entry of
  \<^verbatim>\<open>tmp\<close>, and with it the sum, is \<^verbatim>\<open>nan\<close>.
\<close>

definition csl :: "nat \<Rightarrow> real list" where
  "csl n = 0 # cumsum (map (\<lambda>k. ln (real k + 1)) [0..<n])"

definition tmp :: "lt_specs \<Rightarrow> nat \<Rightarrow> real list" where
  "tmp sp n =
     map (\<lambda>j. csl n ! n - csl n ! j - rev (csl n) ! j
               + ln (sp_p sp) * real ([0..<Suc n] ! j)
               + ln (1 - sp_p sp) * real (rev [0..<Suc n] ! j)) [0..<Suc n]"

definition Chooser_LT_closed :: "lt_specs \<Rightarrow> nat \<Rightarrow> real list \<Rightarrow> npfloat" where
  "Chooser_LT_closed sp n Ov =
     (if 0 < sp_p sp \<and> 0 < 1 - sp_p sp
      then Num (sp_df_T sp * sum_list (map2 (\<lambda>e v. e * v) (map exp (tmp sp n)) Ov))
      else NaN)"

text \<open>
  \<^verbatim>\<open>Chooser._calc_LT\<close>. After the loop \<^verbatim>\<open>O_tree[0][0]\<close> is the root of the option tree.
\<close>

definition Chooser_calc_LT :: "chooser \<Rightarrow> error + chooser" where
  "Chooser_calc_LT self =
     (let n = getattr_nsteps (px_spec self)
      in case LT_specs self n of
           Inl e \<Rightarrow> Inl e
         | Inr sp \<Rightarrow>
             (let S = terminal_prices (S0 (ref self)) sp (nat n);
                  Ov = payout self S
              in if keep_hist (px_spec self)
                 then (case Chooser_LT_loop sp (nat n) (S, Ov, [S], [Ov]) of
                         (S', Ov', S_tree, O_tree) \<Rightarrow>
                           Inr (self\<lparr>px_spec := (px_spec self)
                                  \<lparr>px := Some (Num (hd (hd O_tree))),
                                   LT_specs_used := Some sp,
                                   ref_tree := Some S_tree, opt_tree := Some O_tree\<rparr>\<rparr>))
                 else Inr (self\<lparr>px_spec := (px_spec self)
                             \<lparr>px := Some (Chooser_LT_closed sp (nat n) Ov),
                              LT_specs_used := Some sp,
                              ref_tree := None, opt_tree := None\<rparr>\<rparr>)))"


text \<open>\<^verbatim>\<open>Chooser._calc_FD\<close>: the body is \<^verbatim>\<open>return self\<close>.\<close>

definition Chooser_calc_FD :: "chooser \<Rightarrow> error + chooser" where
  "Chooser_calc_FD self = Inr self"

section \<open>Shout: lattice pricing\<close>

text \<open>
  The standard normal distribution function \<^verbatim>\<open>scipy.stats.norm.cdf\<close> is a parameter
  \<open>Phi\<close> of the model.

  \<^verbatim>\<open>d1 = (0 + (self.rf_r + self.ref.vol ** 2 / 2) * tleft) / (self.ref.vol * math.sqrt(tleft))\<close>:
  \<^verbatim>\<open>math.sqrt\<close> raises \<^verbatim>\<open>ValueError\<close> below 0, the division \<^verbatim>\<open>ZeroDivisionError\<close> at 0.
\<close>

definition Shout_d1 :: "'a option_valuation_scheme \<Rightarrow> real \<Rightarrow> error + real" where
  "Shout_d1 self tleft =
     (if tleft < 0 then Inl ValueError
      else if vol (ref self) * sqrt tleft = 0 then Inl ZeroDivisionError
      else Inr ((0 + (rf_r self + (vol (ref self))\<^sup>2 / 2) * tleft)
                  / (vol (ref self) * sqrt tleft)))"

definition Shout_d2 :: "'a option_valuation_scheme \<Rightarrow> real \<Rightarrow> real \<Rightarrow> real" where
  "Shout_d2 self tleft d1 = d1 - vol (ref self) * sqrt tleft"

text \<open>The vector \<^verbatim>\<open>Shout\<close> of the loop body, one entry per node of the step.\<close>

definition Shout_value ::
  "(real \<Rightarrow> real) \<Rightarrow> 'a option_valuation_scheme \<Rightarrow> real \<Rightarrow> real \<Rightarrow> real \<Rightarrow> real list \<Rightarrow> real list" where
  "Shout_value Phi self tleft d1 d2 S =
     map (\<lambda>s. signCP self * s / exp (q (ref self) * tleft) * Phi (signCP self * d1)
              - signCP self * s / exp (rf_r self * tleft) * Phi (signCP self * d2)
              + signCP self * (s - K self) / exp (rf_r self * tleft)) S"

text \<open>
  The loop \<^verbatim>\<open>for i in range(n, 0, -1)\<close> of \<^verbatim>\<open>Shout._calc_LT\<close>: \<open>i\<close> is \<open>Suc k\<close>,
  \<^verbatim>\<open>left = n - i + 1\<close>.
\<close>

fun Shout_LT_loop ::
  "(real \<Rightarrow> real) \<Rightarrow> 'a option_valuation_scheme \<Rightarrow> lt_specs \<Rightarrow> nat \<Rightarrow> nat
     \<Rightarrow> real list \<times> real list \<times> real list list \<times> real list list
     \<Rightarrow> error + real list \<times> real list \<times> real list list \<times> real list list" where
  "Shout_LT_loop Phi self sp n 0 st = Inr st"
| "Shout_LT_loop Phi self sp n (Suc k) (S, Ov, S_tree, O_tree) =
     (let left = int n - int (Suc k) + 1;
          tleft = real_of_int left * sp_dt sp
      in case Shout_d1 self tleft of
           Inl e \<Rightarrow> Inl e
         | Inr d1 \<Rightarrow>
             (let d2 = Shout_d2 self tleft d1;
                  Ov' = prior_O sp (Suc k) Ov;
                  S' = prior_S sp (Suc k) S;
                  Shout = Shout_value Phi self tleft d1 d2 S';
                  Payout = map (\<lambda>v. max v 0) Shout;
                  Ov'' = map2 max Ov' Payout
              in Shout_LT_loop Phi self sp n k (S', Ov'', S' # S_tree, Ov'' # O_tree)))"

text \<open>
  \<^verbatim>\<open>Shout._calc_LT\<close>. \<^verbatim>\<open>Util.demote(O)\<close> takes the single entry left in \<^verbatim>\<open>O\<close>; the trees
  are stored only with \<^verbatim>\<open>keep_hist\<close>.
\<close>

definition Shout_calc_LT :: "(real \<Rightarrow> real) \<Rightarrow> shout \<Rightarrow> error + shout" where
  "Shout_calc_LT Phi self =
     (let n = getattr_nsteps (px_spec self)
      in case LT_specs self n of
           Inl e \<Rightarrow> Inl e
         | Inr sp \<Rightarrow>
             (let S = terminal_prices (S0 (ref self)) sp (nat n);
                  Ov = payout self S
              in case Shout_LT_loop Phi self sp (nat n) (nat n) (S, Ov, [S], [Ov]) of
                   Inl e \<Rightarrow> Inl e
                 | Inr (S', Ov', S_tree, O_tree) \<Rightarrow>
                     Inr (self\<lparr>px_spec := (px_spec self)
                            \<lparr>method_name := ''LT'', px := Some (Num (hd Ov')),
                             LT_specs_used := Some sp,
                             ref_tree := (if keep_hist (px_spec self) then Some S_tree else None),
                             opt_tree := (if keep_hist (px_spec self) then Some O_tree else None)\<rparr>\<rparr>)))"

text \<open>\<^verbatim>\<open>Shout._calc_FD\<close>: the body is \<^verbatim>\<open>return self\<close>.\<close>

definition Shout_calc_FD :: "shout \<Rightarrow> error + shout" where
  "Shout_calc_FD self = Inr self"

section \<open>Bermudan: the pricing entry point\<close>

text \<open>
  The numpy routines the Bermudan pricer calls are parameters of the model: the state the
  generator has after \<^verbatim>\<open>np.random.seed(seed)\<close>, the draw of one standard normal sample
  from a generator state, and the least-squares fit and its evaluation
  (\<^verbatim>\<open>np.polyfit\<close>, \<^verbatim>\<open>np.polyval\<close>), each of which may raise. The generator state \<open>'g\<close> is
  the process-wide state the source mutates; the model passes it in and out.
\<close>

record ('g, 'c) numpy =
  seeded :: "int \<Rightarrow> 'g"
  draw_normal :: "'g \<Rightarrow> real \<times> 'g"
  polyfit :: "npfloat list \<Rightarrow> npfloat list \<Rightarrow> int \<Rightarrow> error + 'c"
  polyval :: "'c \<Rightarrow> npfloat list \<Rightarrow> error + npfloat list"

text \<open>
  \<^verbatim>\<open>np.random.seed(seed)\<close> accepts a seed between 0 and \<open>2^32 - 1\<close> and raises
  \<^verbatim>\<open>ValueError\<close> otherwise.
\<close>

definition np_random_seed :: "('g, 'c) numpy \<Rightarrow> int \<Rightarrow> error + 'g" where
  "np_random_seed np sd =
     (if 0 \<le> sd \<and> sd < 2 ^ 32 then Inr (seeded np sd) else Inl ValueError)"

text \<open>\<^verbatim>\<open>np.random.normal(loc=0.0, scale=1.0, size=npaths)\<close>: the samples are drawn in turn.\<close>

fun np_random_normal :: "('g, 'c) numpy \<Rightarrow> nat \<Rightarrow> 'g \<Rightarrow> real list \<times> 'g" where
  "np_random_normal np 0 g = ([], g)"
| "np_random_normal np (Suc k) g =
     (case draw_normal np g of
        (z, g') \<Rightarrow> (case np_random_normal np k g' of (zs, g'') \<Rightarrow> (z # zs, g'')))"

text \<open>Python's \<^verbatim>\<open>max\<close> of a sequence raises \<^verbatim>\<open>ValueError\<close> on an empty one.\<close>

definition py_max :: "'a::linorder list \<Rightarrow> error + 'a" where
  "py_max xs = (case xs of [] \<Rightarrow> Inl ValueError | x # ys \<Rightarrow> Inr (fold max ys x))"

text \<open>Python's \<^verbatim>\<open>int\<close> of a float truncates towards zero.\<close>

definition py_int :: "real \<Rightarrow> int" where
  "py_int x = (if 0 \<le> x then \<lfloor>x\<rfloor> else \<lceil>x\<rceil>)"

text \<open>
  The normalisation of the exercise schedule in \<^verbatim>\<open>Bermudan.calc_px\<close>; its first component
  tells whether the entries have become numpy scalars (the branch through \<^verbatim>\<open>np.asarray\<close>).
\<close>

definition normalise_tex :: "real \<Rightarrow> real \<Rightarrow> real list \<Rightarrow> bool \<times> real list" where
  "normalise_tex selfT Tmax tex0 =
     (let deltaT = selfT - Tmax;
          epsilon = 1 / 10 ^ 11
      in if deltaT < epsilon then (True, filter (\<lambda>t. t < selfT) tex0 @ [selfT])
         else if deltaT > epsilon then (False, butlast tex0 @ [selfT])
         else (False, tex0))"

text \<open>
  \<^verbatim>\<open>int(T / (tex[i + 1] - tex[i]))\<close> for each \<open>i\<close> of \<^verbatim>\<open>range(len(tex) - 1)\<close>, in turn. With a
  zero gap Python's division raises \<^verbatim>\<open>ZeroDivisionError\<close>; numpy's gives \<^verbatim>\<open>inf\<close> (or
  \<^verbatim>\<open>nan\<close> for \<open>0/0\<close>), on which \<^verbatim>\<open>int\<close> raises \<^verbatim>\<open>OverflowError\<close> (or \<^verbatim>\<open>ValueError\<close>).
\<close>

fun step_counts :: "bool \<Rightarrow> real \<Rightarrow> real list \<Rightarrow> error + int list" where
  "step_counts numpy Tmax (t1 # t2 # ts) =
     (if t2 - t1 = 0
      then Inl (if numpy then (if Tmax = 0 then ValueError else OverflowError)
                else ZeroDivisionError)
      else (case step_counts numpy Tmax (t2 # ts) of
              Inl e \<Rightarrow> Inl e
            | Inr ks \<Rightarrow> Inr (py_int (Tmax / (t2 - t1)) # ks)))"
| "step_counts numpy Tmax ts = Inr []"

definition knsteps :: "bool \<Rightarrow> real \<Rightarrow> real list \<Rightarrow> error + int" where
  "knsteps numpy Tmax tex1 =
     (case step_counts numpy Tmax tex1 of Inl e \<Rightarrow> Inl e | Inr ks \<Rightarrow> py_max ks)"

text \<open>\<^verbatim>\<open>method.upper()\<close>, on ASCII letters.\<close>

definition upper_char :: "char \<Rightarrow> char" where
  "upper_char c =
     (if (97::nat) \<le> of_char c \<and> of_char c \<le> (122::nat)
      then char_of (of_char c - (32::nat)) else c)"

definition upper :: "string \<Rightarrow> string" where
  "upper m = map upper_char m"

section \<open>Bermudan: lattice pricing\<close>

text \<open>
  The loop of \<^verbatim>\<open>Bermudan._calc_LT\<close>: \<open>i\<close> is \<open>Suc k\<close>; the test of the Bermudan condition is
  \<^verbatim>\<open>i * dt in self.tex\<close>.
\<close>

fun Bermudan_LT_loop ::
  "bermudan \<Rightarrow> lt_specs \<Rightarrow> nat \<Rightarrow> real list \<times> real list \<times> real list list \<times> real list list
     \<Rightarrow> real list \<times> real list \<times> real list list \<times> real list list" where
  "Bermudan_LT_loop self sp 0 st = st"
| "Bermudan_LT_loop self sp (Suc k) (S, Ov, S_tree, O_tree) =
     (let Ov' = prior_O sp (Suc k) Ov;
          S' = prior_S sp (Suc k) S;
          Payout = payout self S';
          Ov'' = (if real (Suc k) * sp_dt sp \<in> set (tex self) then map2 max Ov' Payout
                  else Ov')
      in Bermudan_LT_loop self sp k (S', Ov'', S' # S_tree, Ov'' # O_tree))"

definition Bermudan_calc_LT :: "bermudan \<Rightarrow> error + bermudan" where
  "Bermudan_calc_LT self =
     (let n = getattr_nsteps (px_spec self)
      in case LT_specs self n of
           Inl e \<Rightarrow> Inl e
         | Inr sp \<Rightarrow>
             (let S = terminal_prices (S0 (ref self)) sp (nat n);
                  Ov = payout self S
              in case Bermudan_LT_loop self sp (nat n) (S, Ov, [S], [Ov]) of
                   (S', Ov', S_tree, O_tree) \<Rightarrow>
                     Inr (self\<lparr>px_spec := (px_spec self)
                            \<lparr>method_name := ''LT'', px := Some (Num (hd Ov')),
                             LT_specs_used := Some sp,
                             ref_tree := (if keep_hist (px_spec self) then Some S_tree else None),
                             opt_tree := (if keep_hist (px_spec self) then Some O_tree else None)\<rparr>\<rparr>)))"

text \<open>\<^verbatim>\<open>Bermudan._calc_BS\<close> and \<^verbatim>\<open>Bermudan._calc_FD\<close>: the body of each is \<^verbatim>\<open>return self\<close>.\<close>

definition Bermudan_calc_BS :: "bermudan \<Rightarrow> error + bermudan" where
  "Bermudan_calc_BS self = Inr self"

definition Bermudan_calc_FD :: "bermudan \<Rightarrow> error + bermudan" where
  "Bermudan_calc_FD self = Inr self"

section \<open>Bermudan: Monte Carlo pricing\<close>

text \<open>
  A matrix is the list of its columns. numpy's \<^verbatim>\<open>sqrt\<close> of a negative number is \<^verbatim>\<open>nan\<close>,
  and \<^verbatim>\<open>nan\<close> spreads through products, \<^verbatim>\<open>maximum\<close> and \<^verbatim>\<open>mean\<close>; a comparison with
  \<^verbatim>\<open>nan\<close> is false; the mean of an empty vector is \<^verbatim>\<open>nan\<close>.
\<close>

definition np_sqrt :: "real \<Rightarrow> npfloat" where
  "np_sqrt x = (if 0 \<le> x then Num (sqrt x) else NaN)"

fun np_mul :: "npfloat \<Rightarrow> npfloat \<Rightarrow> npfloat" where
  "np_mul (Num a) (Num b) = Num (a * b)"
| "np_mul x y = NaN"

fun np_add :: "npfloat \<Rightarrow> npfloat \<Rightarrow> npfloat" where
  "np_add (Num a) (Num b) = Num (a + b)"
| "np_add x y = NaN"

fun np_gt :: "npfloat \<Rightarrow> npfloat \<Rightarrow> bool" where
  "np_gt (Num a) (Num b) = (a > b)"
| "np_gt x y = False"

fun np_sum :: "npfloat list \<Rightarrow> npfloat" where
  "np_sum [] = Num 0"
| "np_sum (x # xs) = np_add x (np_sum xs)"

definition np_mean :: "npfloat list \<Rightarrow> npfloat" where
  "np_mean xs =
     (case np_sum xs of
        NaN \<Rightarrow> NaN
      | Num s \<Rightarrow> (if xs = [] then NaN else Num (s / real (length xs))))"

text \<open>The inner function \<^verbatim>\<open>payout\<close> of \<^verbatim>\<open>_calc_MC\<close>, on one entry.\<close>

fun payout_np :: "bermudan \<Rightarrow> npfloat \<Rightarrow> npfloat" where
  "payout_np self (Num s) = Num (max (signCP self * (s - K self)) 0)"
| "payout_np self NaN = NaN"

text \<open>
  \<^verbatim>\<open>delta_T_array\<close>: the gap between each exercise date and the one before it, 0 before
  the first.
\<close>

fun delta_Ts_from :: "real \<Rightarrow> real list \<Rightarrow> real list" where
  "delta_Ts_from previous_tex [] = []"
| "delta_Ts_from previous_tex (t # ts) = (t - previous_tex) # delta_Ts_from t ts"

definition delta_T_array :: "bermudan \<Rightarrow> real list" where
  "delta_T_array self = delta_Ts_from 0 (tex self)"

text \<open>
  \<^verbatim>\<open>generate_stock_price_paths\<close>: \<^verbatim>\<open>np.zeros((npaths, len(self.tex) + 1))\<close> raises
  \<^verbatim>\<open>ValueError\<close> on a negative number of paths, before any sample is drawn; then the loop
  over the exercise dates, from the column of the date before. Each pass draws \<open>npaths\<close>
  samples from the process-wide generator.
\<close>

definition discount :: "bermudan \<Rightarrow> real \<Rightarrow> real \<Rightarrow> npfloat" where
  "discount self delta_T z =
     (let drift = rf_r self - q (ref self)
      in case np_sqrt delta_T of
           NaN \<Rightarrow> NaN
         | Num r \<Rightarrow> Num (exp ((drift - 0.5 * (vol (ref self))\<^sup>2) * delta_T
                               + vol (ref self) * z * r)))"

fun path_columns ::
  "('g, 'c) numpy \<Rightarrow> bermudan \<Rightarrow> nat \<Rightarrow> real list \<Rightarrow> npfloat list \<Rightarrow> 'g
     \<Rightarrow> npfloat list list \<times> 'g" where
  "path_columns np self np_paths [] col g = ([], g)"
| "path_columns np self np_paths (delta_T # rest) col g =
     (case np_random_normal np np_paths g of
        (random_samples, g') \<Rightarrow>
          (let col' = map2 np_mul col (map (discount self delta_T) random_samples)
           in case path_columns np self np_paths rest col' g' of
                (cols, g'') \<Rightarrow> (col' # cols, g'')))"

definition generate_stock_price_paths ::
  "('g, 'c) numpy \<Rightarrow> bermudan \<Rightarrow> int \<Rightarrow> real list \<Rightarrow> 'g
     \<Rightarrow> error + npfloat list list \<times> 'g" where
  "generate_stock_price_paths np self np_paths delta_Ts g =
     (if np_paths < 0 then Inl ValueError
      else (let col0 = replicate (nat np_paths) (Num (S0 (ref self)))
            in case path_columns np self (nat np_paths) delta_Ts col0 g of
                 (cols, g') \<Rightarrow> Inr (col0 # cols, g')))"

text \<open>
  The regression loop \<^verbatim>\<open>for tex_index in range(len(self.tex) - 1, 1, -1)\<close>: the third
  argument is \<open>tex_index\<close>, and the loop ends when it reaches 1.
\<close>

fun regression_loop ::
  "('g, 'c) numpy \<Rightarrow> int \<Rightarrow> npfloat list list \<Rightarrow> npfloat list list \<Rightarrow> nat
     \<Rightarrow> npfloat list list \<Rightarrow> error + npfloat list list" where
  "regression_loop np deg paths pay 0 term = Inr term"
| "regression_loop np deg paths pay (Suc k) term =
     (if Suc k \<le> 1 then Inr term
      else (case polyfit np (paths ! Suc k) (term ! Suc (Suc k)) deg of
              Inl e \<Rightarrow> Inl e
            | Inr MSE_coefficients \<Rightarrow>
                (case polyval np MSE_coefficients (paths ! Suc k) of
                   Inl e \<Rightarrow> Inl e
                 | Inr continuation_price \<Rightarrow>
                     (let condition = map2 np_gt (pay ! Suc k) continuation_price;
                          x = pay ! Suc k;
                          y = term ! Suc (Suc k);
                          col = map2 (\<lambda>c (a, b). if c then a else b) condition (zip x y)
                      in regression_loop np deg paths pay k (term[Suc k := col])))))"

text \<open>
  \<^verbatim>\<open>Bermudan._calc_MC\<close>. \<^verbatim>\<open>getattr\<close> without a default raises \<^verbatim>\<open>AttributeError\<close> on an
  unset attribute; \<^verbatim>\<open>terminal_payouts[:, 1]\<close> raises \<^verbatim>\<open>IndexError\<close> when the matrix has one
  column only.
\<close>

definition Bermudan_calc_MC ::
  "('g, 'c) numpy \<Rightarrow> bermudan \<Rightarrow> 'g \<Rightarrow> (error + bermudan) \<times> 'g" where
  "Bermudan_calc_MC np self g =
     (case npaths (px_spec self) of
        None \<Rightarrow> (Inl AttributeError, g)
      | Some np_paths \<Rightarrow>
          (case R (px_spec self) of
             None \<Rightarrow> (Inl AttributeError, g)
           | Some deg \<Rightarrow>
               (case generate_stock_price_paths np self np_paths (delta_T_array self) g of
                  Inl e \<Rightarrow> (Inl e, g)
                | Inr (paths, g') \<Rightarrow>
                    (let pay = map (map (payout_np self)) paths
                     in case regression_loop np deg paths pay (length (tex self) - 1) pay of
                          Inl e \<Rightarrow> (Inl e, g')
                        | Inr term \<Rightarrow>
                            (if length term < 2 then (Inl IndexError, g')
                             else (let term' = term[0 := term ! 1];
                                       price = np_mean (term' ! 0);
                                       ps = (px_spec self)\<lparr>px := Some price\<rparr>
                                   in (Inr (self\<lparr>px_spec :=
                                          (if keep_hist ps
                                           then ps\<lparr>terminal_payouts := Some term',
                                                  payouts := Some pay,
                                                  stock_price_paths := Some paths\<rparr>
                                           else ps)\<rparr>), g')))))))"

text \<open>
  \<^verbatim>\<open>Bermudan.calc_px\<close>: the generator is seeded first; then the schedule is normalised and
  stored, the step count derived, the price specification replaced and the method found
  by name (\<^verbatim>\<open>getattr(self, '_calc_' + method.upper())()\<close>, \<^verbatim>\<open>AttributeError\<close> for any other
  name). The result is the exception raised, if any, with the object and the generator
  state as the call leaves them.
\<close>

definition Bermudan_dispatch ::
  "('g, 'c) numpy \<Rightarrow> string \<Rightarrow> bermudan \<Rightarrow> 'g \<Rightarrow> (error + bermudan) \<times> 'g" where
  "Bermudan_dispatch np name self g =
     (if name = ''_calc_LT'' then (Bermudan_calc_LT self, g)
      else if name = ''_calc_BS'' then (Bermudan_calc_BS self, g)
      else if name = ''_calc_MC'' then Bermudan_calc_MC np self g
      else if name = ''_calc_FD'' then (Bermudan_calc_FD self, g)
      else (Inl AttributeError, g))"

definition Bermudan_calc_px ::
  "('g, 'c) numpy \<Rightarrow> string \<Rightarrow> real list \<Rightarrow> int option \<Rightarrow> int option \<Rightarrow> bool \<Rightarrow> int \<Rightarrow> int
     \<Rightarrow> bermudan \<Rightarrow> 'g \<Rightarrow> error option \<times> bermudan \<times> 'g" where
  "Bermudan_calc_px np m tex0 ns npth kh deg sd self g =
     (case np_random_seed np sd of
        Inl e \<Rightarrow> (Some e, self, g)
      | Inr g1 \<Rightarrow>
          (case py_max tex0 of
             Inl e \<Rightarrow> (Some e, self, g1)
           | Inr Tmax \<Rightarrow>
               (case normalise_tex (T self) Tmax tex0 of
                  (numpy, tex1) \<Rightarrow>
                    (let self1 = self\<lparr>tex := tex1\<rparr>
                     in case knsteps numpy Tmax tex1 of
                          Inl e \<Rightarrow> (Some e, self1, g1)
                        | Inr kn \<Rightarrow>
                            (let n = (case ns of None \<Rightarrow> kn | Some m' \<Rightarrow> kn * m');
                                 self2 = self1\<lparr>px_spec :=
                                           PriceSpec m (Some n) npth kh (Some deg) (Some sd)\<rparr>
                             in case Bermudan_dispatch np (''_calc_'' @ upper m) self2 g1 of
                                  (Inl e, g2) \<Rightarrow> (Some e, self2, g2)
                                | (Inr self3, g2) \<Rightarrow> (None, self3, g2))))))"

section \<open>Reference definitions from the specification\<close>

text \<open>
  The backward induction engine as section 4.3 of the specification words it: for step
  \<open>i\<close> from \<open>n\<close> down to 1, the continuation \<open>C = df_dt ((1-p) O[0:i] + p O[1:i+1])\<close>, the
  asset prices \<open>d S[1:i+1]\<close> of step \<open>i-1\<close>, and the new option values
  \<open>adjust (i-1) S C\<close>. The vanilla European price is its root under the identity
  adjustment.
\<close>

fun spec_backward_induction ::
  "(nat \<Rightarrow> real list \<Rightarrow> real list \<Rightarrow> real list) \<Rightarrow> lt_specs \<Rightarrow> nat
     \<Rightarrow> real list \<times> real list \<Rightarrow> real list \<times> real list" where
  "spec_backward_induction adjust sp 0 (S, Ov) = (S, Ov)"
| "spec_backward_induction adjust sp (Suc k) (S, Ov) =
     (let C = map (\<lambda>j. sp_df_dt sp * ((1 - sp_p sp) * Ov ! j + sp_p sp * Ov ! Suc j))
                [0..<Suc k];
          S' = map (\<lambda>j. sp_d sp * S ! Suc j) [0..<Suc k]
      in spec_backward_induction adjust sp k (S', adjust k S' C))"

definition spec_identity_adjust :: "nat \<Rightarrow> real list \<Rightarrow> real list \<Rightarrow> real list" where
  "spec_identity_adjust step S C = C"

definition spec_european_px :: "'a option_valuation_scheme \<Rightarrow> int \<Rightarrow> error + real" where
  "spec_european_px self n =
     (case LT_specs self n of
        Inl e \<Rightarrow> Inl e
      | Inr sp \<Rightarrow>
          (let S = terminal_prices (S0 (ref self)) sp (nat n);
               Ov = payout self S
           in Inr (hd (snd (spec_backward_induction spec_identity_adjust sp (nat n) (S, Ov))))))"

text \<open>
  The first argument of the normal distribution function in the Shout adjustment as the
  specification words it: \<open>d1 = (r - q + \<sigma>\<^sup>2/2) tleft / (\<sigma> \<surd>tleft)\<close>.
\<close>

definition spec_d1 :: "'a option_valuation_scheme \<Rightarrow> real \<Rightarrow> real" where
  "spec_d1 self tleft =
     (rf_r self - q (ref self) + (vol (ref self))\<^sup>2 / 2) * tleft
       / (vol (ref self) * sqrt tleft)"

section \<open>Example inputs\<close>

text \<open>
  A chooser on an asset at 4 with volatility \<open>ln 2\<close> and strike 1, so that the lattice
  over unit steps has \<open>u = 2\<close> and \<open>d = 1/2\<close>; dividend yield, rate, maturity, step
  count and the history flag vary.
\<close>

definition test_chooser :: "real \<Rightarrow> real \<Rightarrow> real \<Rightarrow> int \<Rightarrow> bool \<Rightarrow> chooser" where
  "test_chooser dividend rate maturity n kh =
     \<lparr>ref = \<lparr>S0 = 4, vol = ln 2, q = dividend\<rparr>, K = 1, T = maturity, signCP = 1,
      rf_r = rate, px_spec = PriceSpec ''LT'' (Some n) None kh None None, tau = None\<rparr>"

text \<open>A shout option on the same asset, with the volatility as a further parameter.\<close>

definition test_shout :: "real \<Rightarrow> real \<Rightarrow> real \<Rightarrow> real \<Rightarrow> int \<Rightarrow> bool \<Rightarrow> shout" where
  "test_shout volatility dividend rate maturity n kh =
     \<lparr>ref = \<lparr>S0 = 4, vol = volatility, q = dividend\<rparr>, K = 1, T = maturity, signCP = 1,
      rf_r = rate, px_spec = PriceSpec ''LT'' (Some n) None kh None None, q_shout = dividend\<rparr>"

text \<open>
  A Bermudan call on the same asset, without interest; dividend yield, maturity, stored
  schedule and price specification vary.
\<close>

definition test_bermudan :: "real \<Rightarrow> real \<Rightarrow> real list \<Rightarrow> price_spec \<Rightarrow> bermudan" where
  "test_bermudan dividend maturity schedule ps =
     \<lparr>ref = \<lparr>S0 = 4, vol = ln 2, q = dividend\<rparr>, K = 1, T = maturity, signCP = 1,
      rf_r = 0, px_spec = ps, tex = schedule\<rparr>"

section \<open>The binomial lattice: closed form of the backward induction\<close>

lemma binom_step:
  fixes p :: real and x :: "nat \<Rightarrow> real"
  shows "(\<Sum>j\<le>Suc k. real (Suc k choose j) * p ^ j * (1 - p) ^ (Suc k - j) * x j)
       = (\<Sum>j\<le>k. real (k choose j) * p ^ j * (1 - p) ^ (k - j) * ((1 - p) * x j + p * x (Suc j)))"
proof -
  let ?f = "\<lambda>j. p ^ j * (1 - p) ^ (Suc k - j) * x j"
  have "(\<Sum>j\<le>Suc k. real (Suc k choose j) * p ^ j * (1 - p) ^ (Suc k - j) * x j)
      = (\<Sum>j\<le>Suc k. real (Suc k choose j) * ?f j)"
    by (simp add: mult.assoc)
  also have "\<dots> = ?f 0 + (\<Sum>j\<le>k. real (Suc k choose Suc j) * ?f (Suc j))"
    by (subst sum.atMost_Suc_shift) simp
  also have "\<dots> = ?f 0 + ((\<Sum>j\<le>k. real (k choose j) * ?f (Suc j)) + (\<Sum>j\<le>k. real (k choose Suc j) * ?f (Suc j)))"
    by (simp add: algebra_simps sum.distrib)
  also have "\<dots> = (\<Sum>j\<le>k. real (k choose j) * ?f (Suc j)) + (?f 0 + (\<Sum>j\<le>k. real (k choose Suc j) * ?f (Suc j)))"
    by simp
  also have "?f 0 + (\<Sum>j\<le>k. real (k choose Suc j) * ?f (Suc j)) = (\<Sum>j\<le>Suc k. real (k choose j) * ?f j)"
    unfolding sum.atMost_Suc_shift [of _ k] by simp
  also have "\<dots> = (\<Sum>j\<le>k. real (k choose j) * ?f j)"
    by simp
  also have "(\<Sum>j\<le>k. real (k choose j) * ?f (Suc j)) + (\<Sum>j\<le>k. real (k choose j) * ?f j)
     = (\<Sum>j\<le>k. real (k choose j) * ?f (Suc j) + real (k choose j) * ?f j)"
    by (simp add: sum.distrib)
  also have "\<dots> = (\<Sum>j\<le>k. real (k choose j) * p ^ j * (1 - p) ^ (k - j) * ((1 - p) * x j + p * x (Suc j)))"
  proof (rule sum.cong)
    fix j assume "j \<in> {..k}"
    then have "Suc k - j = Suc (k - j)" by auto
    then show "real (k choose j) * ?f (Suc j) + real (k choose j) * ?f j
       = real (k choose j) * p ^ j * (1 - p) ^ (k - j) * ((1 - p) * x j + p * x (Suc j))"
      by (simp add: algebra_simps)
  qed simp
  finally show ?thesis .
qed

lemma prior_O_length: "length Ov = Suc i \<Longrightarrow> length (prior_O sp i Ov) = i"
  by (simp add: prior_O_def)

lemma prior_O_nth: "length Ov = Suc i \<Longrightarrow> j < i \<Longrightarrow>
   prior_O sp i Ov ! j = sp_df_dt sp * ((1 - sp_p sp) * Ov ! j + sp_p sp * Ov ! Suc j)"
  by (simp add: prior_O_def)

lemma Chooser_LT_loop_root:
  "length Ov = Suc k \<Longrightarrow>
   fst (snd (Chooser_LT_loop sp k (S, Ov, St, Ot)))
     = [sp_df_dt sp ^ k * (\<Sum>j\<le>k. real (k choose j) * sp_p sp ^ j * (1 - sp_p sp) ^ (k - j) * Ov ! j)]"
proof (induction k arbitrary: S Ov St Ot)
  case 0
  then show ?case by (cases Ov) simp_all
next
  case (Suc k)
  let ?O1 = "prior_O sp (Suc k) Ov"
  have len: "length ?O1 = Suc k" using Suc.prems by (simp add: prior_O_length)
  have "(\<Sum>j\<le>k. real (k choose j) * sp_p sp ^ j * (1 - sp_p sp) ^ (k - j) * ?O1 ! j)
      = (\<Sum>j\<le>k. real (k choose j) * sp_p sp ^ j * (1 - sp_p sp) ^ (k - j) *
            (sp_df_dt sp * ((1 - sp_p sp) * Ov ! j + sp_p sp * Ov ! Suc j)))"
    by (rule sum.cong) (simp_all add: prior_O_nth [OF Suc.prems])
  also have "\<dots> = sp_df_dt sp * (\<Sum>j\<le>k. real (k choose j) * sp_p sp ^ j * (1 - sp_p sp) ^ (k - j) *
            ((1 - sp_p sp) * Ov ! j + sp_p sp * Ov ! Suc j))"
    by (simp add: sum_distrib_left mult.assoc mult.left_commute)
  also have "\<dots> = sp_df_dt sp * (\<Sum>j\<le>Suc k. real (Suc k choose j) * sp_p sp ^ j * (1 - sp_p sp) ^ (Suc k - j) * Ov ! j)"
    by (simp only: binom_step)
  finally show ?case
    using Suc.IH [OF len] by (simp add: Let_def mult.assoc)
qed

lemma cumsum_from_length: "length (cumsum_from acc xs) = length xs"
  by (induction xs arbitrary: acc) simp_all

lemma cumsum_from_log_nth:
  "j < m \<Longrightarrow> cumsum_from (ln (fact i)) (map (\<lambda>k. ln (real k + 1)) [i..<i + m]) ! j
      = ln (fact (Suc (i + j)))"
proof (induction m arbitrary: i j)
  case 0
  then show ?case by simp
next
  case (Suc m)
  have step: "ln (fact i) + ln (real i + 1) = ln (fact (Suc i) :: real)"
    by (simp add: ln_mult add.commute)
  have "[i..<i + Suc m] = i # [Suc i..<Suc i + m]"
    by (simp add: upt_conv_Cons)
  then have eq: "cumsum_from (ln (fact i)) (map (\<lambda>k. ln (real k + 1)) [i..<i + Suc m])
      = ln (fact (Suc i)) # cumsum_from (ln (fact (Suc i))) (map (\<lambda>k. ln (real k + 1)) [Suc i..<Suc i + m])"
    using step by simp
  show ?case
  proof (cases j)
    case 0
    then show ?thesis using eq by simp
  next
    case (Suc j')
    then have "j' < m" using Suc.prems by simp
    from Suc.IH [OF this, of "Suc i"] show ?thesis using eq Suc by simp
  qed
qed

lemma csl_length: "length (csl n) = Suc n"
  by (simp add: csl_def cumsum_def cumsum_from_length)

lemma csl_nth: "j \<le> n \<Longrightarrow> csl n ! j = ln (fact j)"
proof (cases j)
  case 0
  then show ?thesis by (simp add: csl_def)
next
  case (Suc j')
  assume "j \<le> n"
  then have "j' < n" using Suc by simp
  from cumsum_from_log_nth [OF this, of 0] show ?thesis
    using Suc by (simp add: csl_def cumsum_def)
qed

lemma exp_tmp_nth:
  assumes "0 < sp_p sp" "sp_p sp < 1" "j \<le> n"
  shows "exp (tmp sp n ! j) = real (n choose j) * sp_p sp ^ j * (1 - sp_p sp) ^ (n - j)"
proof -
  have r: "rev (csl n) ! j = ln (fact (n - j))"
    using assms(3) by (simp add: rev_nth csl_length csl_nth)
  have r2: "rev [0..<Suc n] ! j = n - j"
    using assms(3) by (simp add: rev_nth del: upt_Suc)
  have t: "tmp sp n ! j = ln (fact n) - ln (fact j) - ln (fact (n - j))
             + ln (sp_p sp) * real j + ln (1 - sp_p sp) * real (n - j)"
    using assms(3) unfolding tmp_def
    by (simp add: r r2 csl_nth nth_append del: upt_Suc)
  have "exp (tmp sp n ! j) = fact n / (fact j * fact (n - j)) * exp (real j * ln (sp_p sp))
            * exp (real (n - j) * ln (1 - sp_p sp))"
    unfolding t by (simp add: exp_add exp_diff mult.commute)
  also have "exp (real j * ln (sp_p sp)) = sp_p sp ^ j"
    using assms(1) by (simp add: exp_of_nat_mult)
  also have "exp (real (n - j) * ln (1 - sp_p sp)) = (1 - sp_p sp) ^ (n - j)"
    using assms(2) by (simp add: exp_of_nat_mult del: of_nat_diff)
  also have "fact n / (fact j * fact (n - j)) = real (n choose j)"
    using assms(3) by (simp add: binomial_fact)
  finally show ?thesis .
qed

lemma Chooser_LT_closed_sum:
  assumes "0 < sp_p sp" "sp_p sp < 1" "length Ov = Suc n"
  shows "Chooser_LT_closed sp n Ov
     = Num (sp_df_T sp * (\<Sum>j\<le>n. real (n choose j) * sp_p sp ^ j * (1 - sp_p sp) ^ (n - j) * Ov ! j))"
proof -
  have len: "length (tmp sp n) = Suc n" by (simp add: tmp_def)
  have "sum_list (map2 (\<lambda>e v. e * v) (map exp (tmp sp n)) Ov)
      = (\<Sum>j = 0..<Suc n. exp (tmp sp n ! j) * Ov ! j)"
    using assms(3) len by (simp add: sum_list_sum_nth del: upt_Suc)
  also have "\<dots> = (\<Sum>j = 0..<Suc n. real (n choose j) * sp_p sp ^ j * (1 - sp_p sp) ^ (n - j) * Ov ! j)"
    by (rule sum.cong) (simp_all add: exp_tmp_nth [OF assms(1,2)])
  also have "{0..<Suc n} = {..n}" by auto
  finally show ?thesis using assms(1,2) by (simp add: Chooser_LT_closed_def)
qed

lemma terminal_prices_length: "length (terminal_prices s0 sp n) = Suc n"
  by (simp add: terminal_prices_def)

lemma payout_length: "length (payout self S) = length S"
  by (simp add: payout_def)

lemma Chooser_LT_loop_tree_hd:
  "hd Ot = Ov \<Longrightarrow>
   hd (snd (snd (snd (Chooser_LT_loop sp k (S, Ov, St, Ot)))))
     = fst (snd (Chooser_LT_loop sp k (S, Ov, St, Ot)))"
  by (induction k arbitrary: S Ov St Ot) (simp_all add: Let_def)

lemma LT_specs_InrD:
  assumes "LT_specs self n = Inr sp"
  shows "1 \<le> n" and "0 < vol (ref self)" and "0 < T self"
    and "0 \<le> sp_p sp" and "sp_p sp \<le> 1"
    and "sp_dt sp = T self / real_of_int n"
    and "sp_df_dt sp = exp (- rf_r self * sp_dt sp)"
    and "sp_df_T sp = exp (- rf_r self * T self)"
  using assms by (auto simp: LT_specs_def Let_def split: if_splits)

lemma LT_specs_df_power:
  assumes "LT_specs self n = Inr sp"
  shows "sp_df_dt sp ^ nat n = sp_df_T sp"
proof -
  have n: "1 \<le> n" using assms by (rule LT_specs_InrD)
  define x where "x = - rf_r self * (T self / real_of_int n)"
  have "sp_df_dt sp = exp x"
    using LT_specs_InrD(6,7) [OF assms] by (simp add: x_def)
  then have "sp_df_dt sp ^ nat n = exp (real (nat n) * x)"
    by (simp only: exp_of_nat_mult)
  also have "real (nat n) * x = - rf_r self * T self"
    using n by (simp add: x_def)
  finally show ?thesis using LT_specs_InrD(8) [OF assms] by simp
qed

lemma Chooser_calc_LT_hist:
  assumes "LT_specs self (getattr_nsteps (px_spec self)) = Inr sp" and "keep_hist (px_spec self)"
  shows "px_of (Chooser_calc_LT self)
     = Inr (Some (Num (sp_df_T sp * (\<Sum>j\<le>nat (getattr_nsteps (px_spec self)).
           real (nat (getattr_nsteps (px_spec self)) choose j) * sp_p sp ^ j
             * (1 - sp_p sp) ^ (nat (getattr_nsteps (px_spec self)) - j)
             * payout self (terminal_prices (S0 (ref self)) sp (nat (getattr_nsteps (px_spec self)))) ! j))))"
proof -
  let ?n = "nat (getattr_nsteps (px_spec self))"
  let ?S = "terminal_prices (S0 (ref self)) sp ?n"
  let ?O = "payout self ?S"
  let ?r = "Chooser_LT_loop sp ?n (?S, ?O, [?S], [?O])"
  have len: "length ?O = Suc ?n" by (simp add: payout_length terminal_prices_length)
  have root: "hd (hd (snd (snd (snd ?r)))) = sp_df_dt sp ^ ?n * (\<Sum>j\<le>?n. real (?n choose j) * sp_p sp ^ j * (1 - sp_p sp) ^ (?n - j) * ?O ! j)"
    by (simp add: Chooser_LT_loop_tree_hd Chooser_LT_loop_root [OF len])
  obtain S' Ov' St Ot where r: "?r = (S', Ov', St, Ot)"
    by (cases ?r)
  show ?thesis
    using assms root LT_specs_df_power [OF assms(1)] unfolding r
    by (simp add: Chooser_calc_LT_def px_of_def Let_def r)
qed

lemma Chooser_calc_LT_nohist:
  assumes "LT_specs self (getattr_nsteps (px_spec self)) = Inr sp" and "\<not> keep_hist (px_spec self)"
    and "0 < sp_p sp" and "sp_p sp < 1"
  shows "px_of (Chooser_calc_LT self)
     = Inr (Some (Num (sp_df_T sp * (\<Sum>j\<le>nat (getattr_nsteps (px_spec self)).
           real (nat (getattr_nsteps (px_spec self)) choose j) * sp_p sp ^ j
             * (1 - sp_p sp) ^ (nat (getattr_nsteps (px_spec self)) - j)
             * payout self (terminal_prices (S0 (ref self)) sp (nat (getattr_nsteps (px_spec self)))) ! j))))"
proof -
  let ?n = "nat (getattr_nsteps (px_spec self))"
  let ?S = "terminal_prices (S0 (ref self)) sp ?n"
  let ?O = "payout self ?S"
  have len: "length ?O = Suc ?n" by (simp add: payout_length terminal_prices_length)
  show ?thesis
    using assms(1,2) Chooser_LT_closed_sum [OF assms(3,4) len]
    by (simp add: Chooser_calc_LT_def px_of_def Let_def)
qed

lemma prior_O_index:
  assumes "length Ov = Suc (Suc k)"
  shows "map (\<lambda>j. sp_df_dt sp * ((1 - sp_p sp) * Ov ! j + sp_p sp * Ov ! Suc j)) [0..<Suc k]
       = prior_O sp (Suc k) Ov"
  by (rule nth_equalityI) (simp_all add: prior_O_length [OF assms] prior_O_nth [OF assms] del: upt_Suc)

lemma spec_identity_engine:
  "length Ov = Suc k \<Longrightarrow>
   snd (spec_backward_induction spec_identity_adjust sp k (S, Ov))
     = fst (snd (Chooser_LT_loop sp k (S', Ov, St, Ot)))"
proof (induction k arbitrary: S S' Ov St Ot)
  case 0
  then show ?case by simp
next
  case (Suc k)
  have len: "length (prior_O sp (Suc k) Ov) = Suc k"
    using Suc.prems by (simp add: prior_O_length)
  show ?case
    using Suc.IH [OF len]
    by (simp add: Let_def prior_O_index [OF Suc.prems] spec_identity_adjust_def del: upt_Suc)
qed

lemma spec_european_px_sum:
  assumes "LT_specs self n = Inr sp"
  shows "spec_european_px self n
     = Inr (sp_df_T sp * (\<Sum>j\<le>nat n. real (nat n choose j) * sp_p sp ^ j
             * (1 - sp_p sp) ^ (nat n - j)
             * payout self (terminal_prices (S0 (ref self)) sp (nat n)) ! j))"
proof -
  let ?S = "terminal_prices (S0 (ref self)) sp (nat n)"
  let ?O = "payout self ?S"
  have len: "length ?O = Suc (nat n)" by (simp add: payout_length terminal_prices_length)
  show ?thesis
    using assms LT_specs_df_power [OF assms]
    by (simp add: spec_european_px_def Let_def spec_identity_engine [OF len, of _ _ ?S "[?S]" "[?O]"]
        Chooser_LT_loop_root [OF len])
qed

lemma LT_specs_tau: "LT_specs (self\<lparr>tau := t\<rparr>) n = LT_specs self n"
  by (simp add: LT_specs_def Let_def)

lemma LT_specs_px_spec: "LT_specs (self\<lparr>px_spec := ps\<rparr>) n = LT_specs self n"
  by (simp add: LT_specs_def Let_def)

lemma Chooser_calc_LT_tau: "px_of (Chooser_calc_LT (self\<lparr>tau := t\<rparr>)) = px_of (Chooser_calc_LT self)"
  by (simp add: Chooser_calc_LT_def px_of_def LT_specs_tau Let_def payout_def
      split: sum.splits prod.splits)

text \<open>
  On lattice parameters that \<^verbatim>\<open>LT_specs\<close> accepts and whose probability lies strictly
  between 0 and 1, the backward induction of the branch with history and the logarithmic
  closed form of the branch without it leave the same price,
  \<open>df_T * (\<Sum>j\<le>n. C(n,j) p^j (1-p)^(n-j) payout_j)\<close>.
\<close>

lemma Chooser_LT_branches_agree:
  assumes "LT_specs self (getattr_nsteps (px_spec self)) = Inr sp"
    and "0 < sp_p sp" and "sp_p sp < 1"
  shows "px_of (Chooser_calc_LT (self\<lparr>px_spec := (px_spec self)\<lparr>keep_hist := True\<rparr>\<rparr>))
       = px_of (Chooser_calc_LT (self\<lparr>px_spec := (px_spec self)\<lparr>keep_hist := False\<rparr>\<rparr>))
     \<and> px_of (Chooser_calc_LT (self\<lparr>px_spec := (px_spec self)\<lparr>keep_hist := False\<rparr>\<rparr>))
       = Inr (Some (Num (sp_df_T sp * (\<Sum>j\<le>nat (getattr_nsteps (px_spec self)).
           real (nat (getattr_nsteps (px_spec self)) choose j) * sp_p sp ^ j
             * (1 - sp_p sp) ^ (nat (getattr_nsteps (px_spec self)) - j)
             * payout self (terminal_prices (S0 (ref self)) sp (nat (getattr_nsteps (px_spec self)))) ! j))))"
proof -
  let ?h = "self\<lparr>px_spec := (px_spec self)\<lparr>keep_hist := True\<rparr>\<rparr>"
  let ?c = "self\<lparr>px_spec := (px_spec self)\<lparr>keep_hist := False\<rparr>\<rparr>"
  have sh: "LT_specs ?h (getattr_nsteps (px_spec ?h)) = Inr sp"
    using assms(1) by (simp add: LT_specs_px_spec getattr_nsteps_def)
  have sc: "LT_specs ?c (getattr_nsteps (px_spec ?c)) = Inr sp"
    using assms(1) by (simp add: LT_specs_px_spec getattr_nsteps_def)
  have h: "keep_hist (px_spec ?h)" and c: "\<not> keep_hist (px_spec ?c)" by simp_all
  show ?thesis
    using Chooser_calc_LT_hist [OF sh h] Chooser_calc_LT_nohist [OF sc c assms(2,3)]
    by (simp add: getattr_nsteps_def payout_def)
qed

lemma LT_specs_test_chooser_third:
  "LT_specs (test_chooser 0 0 2 2 kh) 2
     = Inr \<lparr>sp_dt = 1, sp_u = 2, sp_d = 1/2, sp_a = 1, sp_p = 1/3, sp_df_T = 1, sp_df_dt = 1\<rparr>"
  by (simp add: LT_specs_def test_chooser_def Let_def)

lemma LT_specs_test_chooser_zero:
  "LT_specs (test_chooser (ln 2) 0 1 1 kh) 1
     = Inr \<lparr>sp_dt = 1, sp_u = 2, sp_d = 1/2, sp_a = 1/2, sp_p = 0, sp_df_T = 1, sp_df_dt = 1\<rparr>"
  by (simp add: LT_specs_def test_chooser_def Let_def exp_minus)

lemma LT_specs_test_chooser_one:
  "LT_specs (test_chooser 0 (ln 2) 1 1 kh) 1
     = Inr \<lparr>sp_dt = 1, sp_u = 2, sp_d = 1/2, sp_a = 2, sp_p = 1, sp_df_T = 1/2, sp_df_dt = 1/2\<rparr>"
  by (simp add: LT_specs_def test_chooser_def Let_def exp_minus)

text \<open>
  The hypotheses hold on the two-step lattice with \<open>p = 1/3\<close>.
\<close>

lemma Chooser_LT_branches_agree_example:
  "map_sum id sp_p (LT_specs (test_chooser 0 0 2 2 False) 2) = Inr (1/3)
   \<and> px_of (Chooser_calc_LT (test_chooser 0 0 2 2 True))
       = px_of (Chooser_calc_LT (test_chooser 0 0 2 2 False))"
proof -
  let ?c = "test_chooser 0 0 2 2 False"
  let ?sp = "\<lparr>sp_dt = 1, sp_u = 2, sp_d = 1/2, sp_a = 1, sp_p = 1/3, sp_df_T = 1, sp_df_dt = 1\<rparr>"
  have n: "getattr_nsteps (px_spec ?c) = 2"
    by (simp add: test_chooser_def PriceSpec_def getattr_nsteps_def)
  have s: "LT_specs ?c (getattr_nsteps (px_spec ?c)) = Inr ?sp"
    unfolding n by (rule LT_specs_test_chooser_third)
  have u1: "?c\<lparr>px_spec := (px_spec ?c)\<lparr>keep_hist := True\<rparr>\<rparr> = test_chooser 0 0 2 2 True"
    by (simp add: test_chooser_def PriceSpec_def)
  have u2: "?c\<lparr>px_spec := (px_spec ?c)\<lparr>keep_hist := False\<rparr>\<rparr> = ?c"
    by (simp add: test_chooser_def PriceSpec_def)
  have "px_of (Chooser_calc_LT (test_chooser 0 0 2 2 True)) = px_of (Chooser_calc_LT ?c)"
    using Chooser_LT_branches_agree [OF s] unfolding u1 u2 by simp
  then show ?thesis by (simp add: LT_specs_test_chooser_third)
qed

text \<open>
  Claim C10 (for \<open>n \<ge> 1\<close> and \<open>p\<close> in \<open>[0,1]\<close> the two branches of \<^verbatim>\<open>Chooser._calc_LT\<close> leave
  the same price) at \<open>p = 0\<close>, which a dividend yield \<open>ln 2\<close>, no interest and one step
  give: the branch without history leaves \<^verbatim>\<open>nan\<close>, the backward induction of the branch
  with history leaves 1.
\<close>

theorem Chooser_LT_branches_differ_at_p_zero:
  "map_sum id sp_p (LT_specs (test_chooser (ln 2) 0 1 1 False) 1) = Inr 0
   \<and> px_of (Chooser_calc_LT (test_chooser (ln 2) 0 1 1 False)) = Inr (Some NaN)
   \<and> px_of (Chooser_calc_LT (test_chooser (ln 2) 0 1 1 True)) = Inr (Some (Num 1))"
proof -
  let ?sp = "\<lparr>sp_dt = 1, sp_u = 2, sp_d = 1/2, sp_a = 1/2, sp_p = 0, sp_df_T = 1, sp_df_dt = 1\<rparr>"
  have n: "getattr_nsteps (px_spec (test_chooser (ln 2) 0 1 1 kh)) = 1" for kh
    by (simp add: test_chooser_def PriceSpec_def getattr_nsteps_def)
  have a: "px_of (Chooser_calc_LT (test_chooser (ln 2) 0 1 1 False)) = Inr (Some NaN)"
    by (simp add: Chooser_calc_LT_def n LT_specs_test_chooser_zero Let_def px_of_def
        Chooser_LT_closed_def) (simp add: test_chooser_def PriceSpec_def)
  have s: "LT_specs (test_chooser (ln 2) 0 1 1 True) (getattr_nsteps (px_spec (test_chooser (ln 2) 0 1 1 True))) = Inr ?sp"
    unfolding n by (rule LT_specs_test_chooser_zero)
  have k: "keep_hist (px_spec (test_chooser (ln 2) 0 1 1 True))"
    by (simp add: test_chooser_def PriceSpec_def)
  have b: "px_of (Chooser_calc_LT (test_chooser (ln 2) 0 1 1 True)) = Inr (Some (Num 1))"
    using Chooser_calc_LT_hist [OF s k] unfolding n
    by (simp add: test_chooser_def payout_def terminal_prices_def)
  show ?thesis using a b by (simp add: LT_specs_test_chooser_zero)
qed

section \<open>Chooser: the lattice price is the vanilla European one\<close>

text \<open>
  The price \<^verbatim>\<open>Chooser._calc_LT\<close> leaves does not depend on the decision time \<open>tau\<close>, and it
  is the root of the identity-adjustment backward induction whenever the history is kept
  or \<open>0 < p < 1\<close>.
\<close>

lemma Chooser_LT_is_vanilla_European:
  assumes "LT_specs self (getattr_nsteps (px_spec self)) = Inr sp"
    and "keep_hist (px_spec self) \<or> 0 < sp_p sp \<and> sp_p sp < 1"
  shows "px_of (Chooser_calc_LT (self\<lparr>tau := t\<rparr>)) = px_of (Chooser_calc_LT self)
     \<and> px_of (Chooser_calc_LT self)
         = map_sum id (\<lambda>v. Some (Num v)) (spec_european_px self (getattr_nsteps (px_spec self)))"
proof (cases "keep_hist (px_spec self)")
  case True
  show ?thesis
    using Chooser_calc_LT_hist [OF assms(1) True] spec_european_px_sum [OF assms(1)]
    by (simp add: Chooser_calc_LT_tau)
next
  case False
  then have p: "0 < sp_p sp" "sp_p sp < 1" using assms(2) by simp_all
  show ?thesis
    using Chooser_calc_LT_nohist [OF assms(1) False p] spec_european_px_sum [OF assms(1)]
    by (simp add: Chooser_calc_LT_tau)
qed

text \<open>On the two-step lattice with \<open>p = 1/3\<close> both prices are 3.\<close>

lemma Chooser_LT_is_vanilla_European_example:
  "map_sum id sp_p (LT_specs (test_chooser 0 0 2 2 False) 2) = Inr (1/3)
   \<and> px_of (Chooser_calc_LT ((test_chooser 0 0 2 2 False)\<lparr>tau := Some 1\<rparr>))
       = px_of (Chooser_calc_LT (test_chooser 0 0 2 2 False))
   \<and> px_of (Chooser_calc_LT (test_chooser 0 0 2 2 False)) = Inr (Some (Num 3))
   \<and> spec_european_px (test_chooser 0 0 2 2 False) 2 = Inr 3"
proof -
  let ?c = "test_chooser 0 0 2 2 False"
  let ?sp = "\<lparr>sp_dt = 1, sp_u = 2, sp_d = 1/2, sp_a = 1, sp_p = 1/3, sp_df_T = 1, sp_df_dt = 1\<rparr>"
  have n: "getattr_nsteps (px_spec ?c) = 2"
    by (simp add: test_chooser_def PriceSpec_def getattr_nsteps_def)
  have s: "LT_specs ?c (getattr_nsteps (px_spec ?c)) = Inr ?sp"
    unfolding n by (rule LT_specs_test_chooser_third)
  have p: "keep_hist (px_spec ?c) \<or> 0 < sp_p ?sp \<and> sp_p ?sp < 1"
    by simp
  have two: "nat 2 = Suc (Suc 0)" by simp
  have e: "spec_european_px ?c 2 = Inr 3"
    unfolding spec_european_px_sum [OF LT_specs_test_chooser_third] two
    by (simp add: test_chooser_def payout_def terminal_prices_def)
  show ?thesis
    using Chooser_LT_is_vanilla_European [OF s p, of "Some 1"] e
    by (simp add: n LT_specs_test_chooser_third)
qed

text \<open>
  Claim C5 (for every input the Chooser lattice price is the vanilla European binomial
  price) at \<open>p = 1\<close>, which the rate \<open>ln 2\<close> and one step give: the call without history
  leaves \<^verbatim>\<open>nan\<close>, where the vanilla European price, and the price the call with history
  leaves, is \<open>7/2\<close>.
\<close>

theorem Chooser_LT_nan_at_p_one:
  "map_sum id sp_p (LT_specs (test_chooser 0 (ln 2) 1 1 False) 1) = Inr 1
   \<and> px_of (Chooser_calc_LT (test_chooser 0 (ln 2) 1 1 False)) = Inr (Some NaN)
   \<and> spec_european_px (test_chooser 0 (ln 2) 1 1 False) 1 = Inr (7/2)
   \<and> px_of (Chooser_calc_LT (test_chooser 0 (ln 2) 1 1 True)) = Inr (Some (Num (7/2)))"
proof -
  have nh: "getattr_nsteps (px_spec (test_chooser 0 (ln 2) 1 1 True)) = 1"
    by (simp add: test_chooser_def PriceSpec_def getattr_nsteps_def)
  have sh: "LT_specs (test_chooser 0 (ln 2) 1 1 True)
      (getattr_nsteps (px_spec (test_chooser 0 (ln 2) 1 1 True)))
    = Inr \<lparr>sp_dt = 1, sp_u = 2, sp_d = 1/2, sp_a = 2, sp_p = 1, sp_df_T = 1/2, sp_df_dt = 1/2\<rparr>"
    unfolding nh by (rule LT_specs_test_chooser_one)
  have kh: "keep_hist (px_spec (test_chooser 0 (ln 2) 1 1 True))"
    by (simp add: test_chooser_def PriceSpec_def)
  have h: "px_of (Chooser_calc_LT (test_chooser 0 (ln 2) 1 1 True)) = Inr (Some (Num (7/2)))"
    using Chooser_calc_LT_hist [OF sh kh] unfolding nh
    by (simp add: test_chooser_def payout_def terminal_prices_def)
  let ?c = "test_chooser 0 (ln 2) 1 1 False"
  have n: "getattr_nsteps (px_spec ?c) = 1"
    by (simp add: test_chooser_def PriceSpec_def getattr_nsteps_def)
  have a: "px_of (Chooser_calc_LT ?c) = Inr (Some NaN)"
    by (simp add: Chooser_calc_LT_def n LT_specs_test_chooser_one Let_def px_of_def
        Chooser_LT_closed_def) (simp add: test_chooser_def PriceSpec_def)
  have b: "spec_european_px ?c 1 = Inr (7/2)"
    unfolding spec_european_px_sum [OF LT_specs_test_chooser_one]
    by (simp add: test_chooser_def payout_def terminal_prices_def)
  show ?thesis using a b h by (simp add: LT_specs_test_chooser_one)
qed

section \<open>Shout: the adjusted values dominate the vanilla European ones\<close>

lemma prior_O_mono:
  assumes "list_all2 (\<le>) A B" "0 \<le> sp_df_dt sp" "0 \<le> sp_p sp" "sp_p sp \<le> 1"
  shows "list_all2 (\<le>) (prior_O sp i A) (prior_O sp i B)"
proof -
  have len: "length A = length B" using assms(1) by (rule list_all2_lengthD)
  have nth: "A ! j \<le> B ! j" if "j < length A" for j
    using assms(1) that by (simp add: list_all2_conv_all_nth)
  show ?thesis
    unfolding prior_O_def list_all2_conv_all_nth
  proof (intro conjI allI impI)
    show "length (map2 (\<lambda>x y. sp_df_dt sp * ((1 - sp_p sp) * x + sp_p sp * y)) (take i A) (drop 1 A))
        = length (map2 (\<lambda>x y. sp_df_dt sp * ((1 - sp_p sp) * x + sp_p sp * y)) (take i B) (drop 1 B))"
      using len by simp
  next
    fix j
    assume j: "j < length (map2 (\<lambda>x y. sp_df_dt sp * ((1 - sp_p sp) * x + sp_p sp * y)) (take i A) (drop 1 A))"
    then have j1: "j < i" "Suc j < length A" by auto
    have a: "(1 - sp_p sp) * A ! j \<le> (1 - sp_p sp) * B ! j"
      using nth [of j] j1 assms(4) by (intro mult_left_mono) simp_all
    have b: "sp_p sp * A ! Suc j \<le> sp_p sp * B ! Suc j"
      using nth [of "Suc j"] j1 assms(3) by (intro mult_left_mono) simp_all
    have "sp_df_dt sp * ((1 - sp_p sp) * A ! j + sp_p sp * A ! Suc j)
        \<le> sp_df_dt sp * ((1 - sp_p sp) * B ! j + sp_p sp * B ! Suc j)"
      by (rule mult_left_mono [OF add_mono [OF a b] assms(2)])
    then show "map2 (\<lambda>x y. sp_df_dt sp * ((1 - sp_p sp) * x + sp_p sp * y)) (take i A) (drop 1 A) ! j
        \<le> map2 (\<lambda>x y. sp_df_dt sp * ((1 - sp_p sp) * x + sp_p sp * y)) (take i B) (drop 1 B) ! j"
      using j1 len by simp
  qed
qed

lemma prior_O_length_gen: "length (prior_O sp i A) = min i (length A - 1)"
  by (simp add: prior_O_def)

lemma prior_S_length_gen: "length (prior_S sp i S) = min i (length S - 1)"
  by (simp add: prior_S_def)

lemma map2_max_ge:
  assumes "list_all2 (\<le>) A B" "length P = length B"
  shows "list_all2 (\<le>) A (map2 max B (P :: real list))"
  using assms by (auto simp: list_all2_conv_all_nth)

lemma Shout_d1_ok:
  "0 < tleft \<Longrightarrow> 0 < vol (ref self) \<Longrightarrow> \<exists>d1. Shout_d1 self tleft = Inr d1"
  by (simp add: Shout_d1_def)

lemma Shout_loop_dominates:
  assumes "0 \<le> sp_df_dt sp" "0 \<le> sp_p sp" "sp_p sp \<le> 1" "0 < sp_dt sp" "0 < vol (ref self)"
  shows "k \<le> n \<Longrightarrow> list_all2 (\<le>) Oe Os \<Longrightarrow> length S = length Os
     \<Longrightarrow> list_all2 (list_all2 (\<le>)) Te Ts
     \<Longrightarrow> \<exists>S' Ov' St' Ot'. Shout_LT_loop Phi self sp n k (S, Os, St, Ts) = Inr (S', Ov', St', Ot')
          \<and> list_all2 (\<le>) (fst (snd (Chooser_LT_loop sp k (S2, Oe, St2, Te)))) Ov'
          \<and> list_all2 (list_all2 (\<le>)) (snd (snd (snd (Chooser_LT_loop sp k (S2, Oe, St2, Te))))) Ot'
          \<and> hd Ot' = (if k = 0 then hd Ts else Ov')"
proof (induction k arbitrary: Oe Os S S2 St St2 Te Ts)
  case 0
  then show ?case by simp
next
  case (Suc k)
  let ?tleft = "real_of_int (int n - int (Suc k) + 1) * sp_dt sp"
  have "0 < ?tleft" using Suc.prems(1) assms(4) by simp
  from Shout_d1_ok [OF this assms(5)] obtain d1 where d1: "Shout_d1 self ?tleft = Inr d1" ..
  let ?Oe = "prior_O sp (Suc k) Oe"
  let ?O1 = "prior_O sp (Suc k) Os"
  let ?S1 = "prior_S sp (Suc k) S"
  let ?P = "map (\<lambda>v. max v 0) (Shout_value Phi self ?tleft d1 (Shout_d2 self ?tleft d1) ?S1)"
  let ?O2 = "map2 max ?O1 ?P"
  have m: "list_all2 (\<le>) ?Oe ?O1"
    using Suc.prems(2) assms(1,2,3) by (rule prior_O_mono)
  have lp: "length ?P = length ?O1"
    using Suc.prems(3) by (simp add: Shout_value_def prior_O_length_gen prior_S_length_gen)
  have m2: "list_all2 (\<le>) ?Oe ?O2"
    using m lp by (rule map2_max_ge)
  have l2: "length ?S1 = length ?O2"
    using lp by (simp add: Shout_value_def)
  have t2: "list_all2 (list_all2 (\<le>)) (?Oe # Te) (?O2 # Ts)"
    using m2 Suc.prems(4) by simp
  have kn: "k \<le> n" using Suc.prems(1) by simp
  from Suc.IH [OF kn m2 l2 t2, of "?S1 # St" "prior_S sp (Suc k) S2" "prior_S sp (Suc k) S2 # St2"]
  obtain S' Ov' St' Ot' where
    r: "Shout_LT_loop Phi self sp n k (?S1, ?O2, ?S1 # St, ?O2 # Ts) = Inr (S', Ov', St', Ot')"
    and a: "list_all2 (\<le>) (fst (snd (Chooser_LT_loop sp k (prior_S sp (Suc k) S2, ?Oe, prior_S sp (Suc k) S2 # St2, ?Oe # Te)))) Ov'"
    and b: "list_all2 (list_all2 (\<le>)) (snd (snd (snd (Chooser_LT_loop sp k (prior_S sp (Suc k) S2, ?Oe, prior_S sp (Suc k) S2 # St2, ?Oe # Te))))) Ot'"
    and c: "hd Ot' = (if k = 0 then hd (?O2 # Ts) else Ov')"
    by blast
  have c': "hd Ot' = Ov'"
  proof (cases k)
    case 0
    then show ?thesis using r c by auto
  next
    case (Suc k')
    then show ?thesis using c by simp
  qed
  show ?case
    using r a b c' d1 by (simp add: Let_def)
qed

lemma LT_specs_unit_lattice:
  assumes "vol (ref self) = ln 2" "T self = real_of_int n" "1 \<le> n"
    and "q (ref self) = 0" "rf_r self = 0"
  shows "LT_specs self n
     = Inr \<lparr>sp_dt = 1, sp_u = 2, sp_d = 1/2, sp_a = 1, sp_p = 1/3, sp_df_T = 1, sp_df_dt = 1\<rparr>"
  using assms by (simp add: LT_specs_def Let_def)

text \<open>
  Claim C3: on lattice parameters that \<^verbatim>\<open>LT_specs\<close> accepts (so \<open>n \<ge> 1\<close> and \<open>0 \<le> p \<le> 1\<close>)
  the Shout lattice call returns, every level of its option tree dominates, node by
  node, the same level of the tree of the identity-adjustment backward induction, and
  its price is at least the vanilla European price.
\<close>

theorem Shout_dominates_European:
  fixes self :: shout
  assumes "LT_specs self (getattr_nsteps (px_spec self)) = Inr sp"
  shows "\<exists>s' ts v e.
      Shout_calc_LT Phi self = Inr s'
    \<and> list_all2 (list_all2 (\<le>))
         (snd (snd (snd (Chooser_LT_loop sp (nat (getattr_nsteps (px_spec self)))
            (terminal_prices (S0 (ref self)) sp (nat (getattr_nsteps (px_spec self))),
             payout self (terminal_prices (S0 (ref self)) sp (nat (getattr_nsteps (px_spec self)))),
             [terminal_prices (S0 (ref self)) sp (nat (getattr_nsteps (px_spec self)))],
             [payout self (terminal_prices (S0 (ref self)) sp (nat (getattr_nsteps (px_spec self))))]))))) ts
    \<and> opt_tree (px_spec s') = (if keep_hist (px_spec self) then Some ts else None)
    \<and> px (px_spec s') = Some (Num v)
    \<and> spec_european_px self (getattr_nsteps (px_spec self)) = Inr e
    \<and> e \<le> v"
proof -
  let ?n = "nat (getattr_nsteps (px_spec self))"
  let ?S = "terminal_prices (S0 (ref self)) sp ?n"
  let ?O = "payout self ?S"
  have df: "0 \<le> sp_df_dt sp" using LT_specs_InrD(7) [OF assms] by simp
  have p0: "0 \<le> sp_p sp" and p1: "sp_p sp \<le> 1" using LT_specs_InrD(4,5) [OF assms] by simp_all
  have dt: "0 < sp_dt sp" using LT_specs_InrD(1,3,6) [OF assms] by simp
  have v: "0 < vol (ref self)" using assms by (rule LT_specs_InrD)
  have len: "length ?O = Suc ?n" by (simp add: payout_length terminal_prices_length)
  have refl: "list_all2 (\<le>) ?O ?O" by (simp add: list_all2_conv_all_nth)
  have lS: "length ?S = length ?O" by (simp add: payout_length)
  have t0: "list_all2 (list_all2 (\<le>)) [?O] [?O]" using refl by simp
  from Shout_loop_dominates [where Phi = Phi and St = "[?S]" and ?S2.0 = ?S and ?St2.0 = "[?S]",
      OF df p0 p1 dt v order_refl refl lS t0]
  obtain S' Ov' St' Ot' where
    r: "Shout_LT_loop Phi self sp ?n ?n (?S, ?O, [?S], [?O]) = Inr (S', Ov', St', Ot')"
    and a: "list_all2 (\<le>) (fst (snd (Chooser_LT_loop sp ?n (?S, ?O, [?S], [?O])))) Ov'"
    and b: "list_all2 (list_all2 (\<le>)) (snd (snd (snd (Chooser_LT_loop sp ?n (?S, ?O, [?S], [?O]))))) Ot'"
    by blast
  obtain e where e: "fst (snd (Chooser_LT_loop sp ?n (?S, ?O, [?S], [?O]))) = [e]"
    using Chooser_LT_loop_root [OF len] by blast
  from a obtain w where w: "Ov' = [w]" "e \<le> w"
    unfolding e by (auto simp: list_all2_Cons1)
  have eu: "spec_european_px self (getattr_nsteps (px_spec self)) = Inr e"
    using assms e by (simp add: spec_european_px_def Let_def spec_identity_engine [OF len, of _ _ ?S "[?S]" "[?O]"])
  let ?s' = "self\<lparr>px_spec := (px_spec self)
              \<lparr>method_name := ''LT'', px := Some (Num w), LT_specs_used := Some sp,
               ref_tree := (if keep_hist (px_spec self) then Some St' else None),
               opt_tree := (if keep_hist (px_spec self) then Some Ot' else None)\<rparr>\<rparr>"
  have c: "Shout_calc_LT Phi self = Inr ?s'"
    using assms r w by (simp add: Shout_calc_LT_def Let_def)
  show ?thesis
    unfolding c
    by (rule exI [of _ ?s'], rule exI [of _ Ot'], rule exI [of _ w], rule exI [of _ e])
      (simp add: b w eu)
qed

text \<open>On the two-step lattice with \<open>p = 1/3\<close> the vanilla European price is 3.\<close>

theorem Shout_dominates_European_witness:
  "map_sum id sp_p (LT_specs (test_shout (ln 2) 0 0 2 2 True) 2) = Inr (1/3)
   \<and> (\<forall>Phi. \<exists>s' ts v. Shout_calc_LT Phi (test_shout (ln 2) 0 0 2 2 True) = Inr s'
         \<and> opt_tree (px_spec s') = Some ts \<and> px (px_spec s') = Some (Num v) \<and> 3 \<le> v)"
proof -
  let ?c = "test_shout (ln 2) 0 0 2 2 True"
  let ?sp = "\<lparr>sp_dt = 1, sp_u = 2, sp_d = 1/2, sp_a = 1, sp_p = 1/3, sp_df_T = 1, sp_df_dt = 1\<rparr>"
  have n: "getattr_nsteps (px_spec ?c) = 2"
    by (simp add: test_shout_def PriceSpec_def getattr_nsteps_def)
  have s2: "LT_specs ?c 2 = Inr ?sp"
    by (rule LT_specs_unit_lattice) (simp_all add: test_shout_def)
  have s: "LT_specs ?c (getattr_nsteps (px_spec ?c)) = Inr ?sp"
    unfolding n by (rule s2)
  have k: "keep_hist (px_spec ?c)" by (simp add: test_shout_def PriceSpec_def)
  have two: "nat 2 = Suc (Suc 0)" by simp
  have e: "spec_european_px ?c 2 = Inr 3"
    unfolding spec_european_px_sum [OF s2] two
    by (simp add: test_shout_def payout_def terminal_prices_def)
  have "\<exists>s' ts v. Shout_calc_LT Phi ?c = Inr s'
         \<and> opt_tree (px_spec s') = Some ts \<and> px (px_spec s') = Some (Num v) \<and> 3 \<le> v" for Phi
    using Shout_dominates_European [OF s, of Phi] e k unfolding n by auto
  then show ?thesis by (simp add: s2)
qed

section \<open>Shout: the arguments of the locked value\<close>

text \<open>
  With \<open>1/exp x = exp (-x)\<close> the vector \<^verbatim>\<open>Shout\<close> of the loop has the form the specification
  gives to the locked value, and \<open>d2 = d1 - \<sigma> \<surd>tleft\<close> is \<open>Shout_d2\<close> by definition. The
  first argument \<open>d1\<close> differs: the source leaves the dividend yield out of it.
\<close>

lemma Shout_d1_value:
  assumes "0 < tleft" "0 < vol (ref self)"
  shows "Shout_d1 self tleft
     = Inr ((rf_r self + (vol (ref self))\<^sup>2 / 2) * tleft / (vol (ref self) * sqrt tleft))"
  using assms by (simp add: Shout_d1_def)

lemma Shout_d1_spec_gap:
  assumes "0 < tleft" "0 < vol (ref self)"
  shows "Shout_d1 self tleft
     = Inr (spec_d1 self tleft + q (ref self) * tleft / (vol (ref self) * sqrt tleft))"
  using assms by (simp add: Shout_d1_def spec_d1_def field_simps)

lemma Shout_value_spec_form:
  "Shout_value Phi self tleft d1 d2 S
     = map (\<lambda>s. signCP self * s * exp (- q (ref self) * tleft) * Phi (signCP self * d1)
              - signCP self * s * exp (- rf_r self * tleft) * Phi (signCP self * d2)
              + signCP self * (s - K self) * exp (- rf_r self * tleft)) S"
  by (simp add: Shout_value_def exp_minus divide_inverse)

text \<open>
  Claim C2 at volatility 1, dividend yield \<open>1/2\<close>, no interest and one unit of time
  left: the source computes \<open>d1 = 1/2\<close>, the formula of the claim gives 0.
\<close>

theorem Shout_d1_omits_dividend_yield:
  "Shout_d1 (test_shout 1 (1/2) 0 2 2 True) 1 = Inr (1/2)
   \<and> spec_d1 (test_shout 1 (1/2) 0 2 2 True) 1 = 0"
  by (simp add: Shout_d1_def spec_d1_def test_shout_def)

section \<open>Bermudan: the lattice at concrete schedules\<close>

lemma LT_specs_sixth:
  assumes "vol (ref self) = ln 2" "T self = 2" "q (ref self) = ln (4/3)" "rf_r self = 0"
  shows "LT_specs self 2
     = Inr \<lparr>sp_dt = 1, sp_u = 2, sp_d = 1/2, sp_a = 3/4, sp_p = 1/6, sp_df_T = 1, sp_df_dt = 1\<rparr>"
  using assms by (simp add: LT_specs_def Let_def exp_minus)

lemma upper_LT: "upper ''LT'' = ''LT''" "upper ''FD'' = ''FD''" "upper ''MC'' = ''MC''" "upper ''BS'' = ''BS''"
  by (simp_all add: upper_def upper_char_def)

lemma upper_lower: "upper ''fd'' = ''FD''"
  by code_simp

lemma Bermudan_calc_LT_12:
  "Bermudan_calc_LT (test_bermudan (ln (4/3)) 2 [1, 2] (PriceSpec ''LT'' (Some 2) None True (Some 3) (Some 4294967295)))
   = Inr (test_bermudan (ln (4/3)) 2 [1, 2]
       ((PriceSpec ''LT'' (Some 2) None True (Some 3) (Some 4294967295))
          \<lparr>px := Some (Num 3),
           LT_specs_used := Some \<lparr>sp_dt = 1, sp_u = 2, sp_d = 1/2, sp_a = 3/4, sp_p = 1/6, sp_df_T = 1, sp_df_dt = 1\<rparr>,
           ref_tree := Some [[4], [2, 8], [1, 4, 16]],
           opt_tree := Some [[3], [1, 7], [0, 3, 15]]\<rparr>))"
proof -
  let ?b = "test_bermudan (ln (4/3)) 2 [1, 2] (PriceSpec ''LT'' (Some 2) None True (Some 3) (Some 4294967295))"
  have s: "LT_specs ?b 2 = Inr \<lparr>sp_dt = 1, sp_u = 2, sp_d = 1/2, sp_a = 3/4, sp_p = 1/6, sp_df_T = 1, sp_df_dt = 1\<rparr>"
    by (rule LT_specs_sixth) (simp_all add: test_bermudan_def)
  have n: "getattr_nsteps (px_spec ?b) = 2"
    by (simp add: test_bermudan_def PriceSpec_def getattr_nsteps_def)
  have two: "nat 2 = Suc (Suc 0)" by simp
  show ?thesis
    unfolding Bermudan_calc_LT_def Let_def n s two
    by (simp add: Let_def terminal_prices_def payout_def prior_O_def prior_S_def
        test_bermudan_def PriceSpec_def)
qed

lemma seed_default: "np_random_seed np 4294967295 = Inr (seeded np 4294967295)"
  by (simp add: np_random_seed_def)

text \<open>
  Claim C1 at the schedule \<open>(1, 2)\<close> with maturity 2 (two unit steps, dividend yield
  \<open>ln (4/3)\<close>, so \<open>p = 1/6\<close>): the root, whose time 0 is no exercise date, is given
  \<open>max 2 3 = 3\<close>, the larger of its continuation value 2 and its intrinsic payoff 3,
  because the pass \<open>i = 1\<close> that computes it tests \<open>1 * dt = 1\<close>, the time of the step
  after it.
\<close>

theorem Bermudan_LT_exercises_at_unscheduled_root:
  "Bermudan_calc_px np ''LT'' [1, 2] None None True 3 4294967295
       (test_bermudan (ln (4/3)) 2 [] ps0) g
     = (None,
        test_bermudan (ln (4/3)) 2 [1, 2]
          ((PriceSpec ''LT'' (Some 2) None True (Some 3) (Some 4294967295))
             \<lparr>px := Some (Num 3),
              LT_specs_used := Some \<lparr>sp_dt = 1, sp_u = 2, sp_d = 1/2, sp_a = 3/4, sp_p = 1/6,
                                      sp_df_T = 1, sp_df_dt = 1\<rparr>,
              ref_tree := Some [[4], [2, 8], [1, 4, 16]],
              opt_tree := Some [[3], [1, 7], [0, 3, 15]]\<rparr>),
        seeded np 4294967295)
   \<and> prior_O \<lparr>sp_dt = 1, sp_u = 2, sp_d = 1/2, sp_a = 3/4, sp_p = 1/6, sp_df_T = 1, sp_df_dt = 1\<rparr>
         1 [1, 7] = [2]
   \<and> payout (test_bermudan (ln (4/3)) 2 [1, 2] ps0) [4] = [3]
   \<and> (0::real) \<notin> set [1, 2]"
proof -
  have u: "(test_bermudan (ln (4/3)) 2 [] ps0)\<lparr>tex := [1, 2]\<rparr>\<lparr>px_spec := ps\<rparr>
      = test_bermudan (ln (4/3)) 2 [1, 2] ps" for ps
    by (simp add: test_bermudan_def)
  have k: "knsteps True 2 [1, 2] = Inr 2"
    by (simp add: knsteps_def py_max_def py_int_def)
  have n0: "normalise_tex (T (test_bermudan (ln (4/3)) 2 [] ps0)) 2 [1, 2] = (True, [1, 2])"
    by (simp add: normalise_tex_def test_bermudan_def)
  have a: "Bermudan_calc_px np ''LT'' [1, 2] None None True 3 4294967295
       (test_bermudan (ln (4/3)) 2 [] ps0) g
     = (None,
        test_bermudan (ln (4/3)) 2 [1, 2]
          ((PriceSpec ''LT'' (Some 2) None True (Some 3) (Some 4294967295))
             \<lparr>px := Some (Num 3),
              LT_specs_used := Some \<lparr>sp_dt = 1, sp_u = 2, sp_d = 1/2, sp_a = 3/4, sp_p = 1/6,
                                      sp_df_T = 1, sp_df_dt = 1\<rparr>,
              ref_tree := Some [[4], [2, 8], [1, 4, 16]],
              opt_tree := Some [[3], [1, 7], [0, 3, 15]]\<rparr>),
        seeded np 4294967295)"
    unfolding Bermudan_calc_px_def seed_default
    by (simp add: py_max_def n0 Let_def k u upper_LT Bermudan_dispatch_def
        Bermudan_calc_LT_12)
  show ?thesis
    unfolding a by (simp add: prior_O_def payout_def test_bermudan_def)
qed

lemma Bermudan_calc_px_single_date:
  "fst (Bermudan_calc_px np m [T self] ns npth kh deg 4294967295 self g) = Some ValueError"
  unfolding Bermudan_calc_px_def seed_default
  by (simp add: py_max_def normalise_tex_def Let_def knsteps_def)

text \<open>
  Claim C4 at the schedule \<open>(2)\<close> with maturity 2: \<^verbatim>\<open>calc_px\<close> raises \<^verbatim>\<open>ValueError\<close> (the
  maximum of no step counts); and the lattice run on the stored schedule \<open>[2]\<close> with two
  steps prices the option at 2, where the vanilla European price is \<open>5/4\<close>: the pass
  \<open>i = 2\<close> finds \<open>2 * dt = 2\<close> scheduled and exercises at time 1.
\<close>

theorem Bermudan_maturity_only_schedule:
  "fst (Bermudan_calc_px np ''LT'' [2] None None False 3 4294967295
          (test_bermudan (ln (4/3)) 2 [] ps0) g) = Some ValueError
   \<and> px_of (Bermudan_calc_LT (test_bermudan (ln (4/3)) 2 [2]
          (PriceSpec ''LT'' (Some 2) None False (Some 3) (Some 4294967295))))
       = Inr (Some (Num 2))
   \<and> spec_european_px (test_bermudan (ln (4/3)) 2 [2]
          (PriceSpec ''LT'' (Some 2) None False (Some 3) (Some 4294967295))) 2 = Inr (5/4)"
proof -
  let ?b = "test_bermudan (ln (4/3)) 2 [2] (PriceSpec ''LT'' (Some 2) None False (Some 3) (Some 4294967295))"
  let ?sp = "\<lparr>sp_dt = 1, sp_u = 2, sp_d = 1/2, sp_a = 3/4, sp_p = 1/6, sp_df_T = 1, sp_df_dt = 1\<rparr>"
  have t: "T (test_bermudan (ln (4/3)) 2 [] ps0) = 2" by (simp add: test_bermudan_def)
  have a: "fst (Bermudan_calc_px np ''LT'' [2] None None False 3 4294967295
          (test_bermudan (ln (4/3)) 2 [] ps0) g) = Some ValueError"
    using Bermudan_calc_px_single_date [of np "''LT''" "test_bermudan (ln (4/3)) 2 [] ps0"]
    unfolding t by simp
  have s: "LT_specs ?b 2 = Inr ?sp"
    by (rule LT_specs_sixth) (simp_all add: test_bermudan_def)
  have n: "getattr_nsteps (px_spec ?b) = 2"
    by (simp add: test_bermudan_def PriceSpec_def getattr_nsteps_def)
  have two: "nat 2 = Suc (Suc 0)" by simp
  have b: "px_of (Bermudan_calc_LT ?b) = Inr (Some (Num 2))"
    unfolding Bermudan_calc_LT_def Let_def n s two
    by (simp add: Let_def terminal_prices_def payout_def prior_O_def prior_S_def
        test_bermudan_def PriceSpec_def px_of_def)
  have c: "spec_european_px ?b 2 = Inr (5/4)"
    unfolding spec_european_px_sum [OF s] two
    by (simp add: test_bermudan_def payout_def terminal_prices_def)
  show ?thesis using a b c by simp
qed

section \<open>Bermudan: the stored exercise schedule\<close>

lemma np_random_seed_valid:
  "0 \<le> sd \<Longrightarrow> sd < 2 ^ 32 \<Longrightarrow> np_random_seed np sd = Inr (seeded np sd)"
  by (simp add: np_random_seed_def)

lemma py_max_Max: "xs \<noteq> [] \<Longrightarrow> py_max xs = Inr (Max (set xs))"
  by (cases xs) (simp_all add: py_max_def Max.set_eq_fold [symmetric])

lemma Bermudan_calc_LT_tex: "Bermudan_calc_LT self = Inr s \<Longrightarrow> tex s = tex self"
  by (auto simp: Bermudan_calc_LT_def Let_def split: sum.splits prod.splits)

lemma Bermudan_calc_MC_tex: "Bermudan_calc_MC np self g = (Inr s, g') \<Longrightarrow> tex s = tex self"
  by (auto simp: Bermudan_calc_MC_def Let_def split: option.splits sum.splits prod.splits if_splits)

lemma Bermudan_dispatch_tex:
  "Bermudan_dispatch np name self g = (Inr s, g') \<Longrightarrow> tex s = tex self"
  by (auto simp: Bermudan_dispatch_def Bermudan_calc_BS_def Bermudan_calc_FD_def
      dest: Bermudan_calc_LT_tex Bermudan_calc_MC_tex split: if_splits)

lemma Bermudan_calc_px_stored_tex:
  assumes "0 \<le> sd" "sd < 2 ^ 32" "tex0 \<noteq> []"
  shows "tex (fst (snd (Bermudan_calc_px np m tex0 ns npth kh deg sd self g)))
       = snd (normalise_tex (T self) (Max (set tex0)) tex0)"
proof -
  obtain numpy tex1 where n: "normalise_tex (T self) (Max (set tex0)) tex0 = (numpy, tex1)"
    by (cases "normalise_tex (T self) (Max (set tex0)) tex0")
  show ?thesis
  proof (cases "knsteps numpy (Max (set tex0)) tex1")
    case (Inl e)
    then show ?thesis
      by (simp add: Bermudan_calc_px_def np_random_seed_valid [OF assms(1,2)]
          py_max_Max [OF assms(3)] n)
  next
    case (Inr kn)
    let ?self2 = "self\<lparr>tex := tex1\<rparr>\<lparr>px_spec := PriceSpec m
        (Some (case ns of None \<Rightarrow> kn | Some m' \<Rightarrow> kn * m')) npth kh (Some deg) (Some sd)\<rparr>"
    obtain r g2 where d: "Bermudan_dispatch np (''_calc_'' @ upper m) ?self2 (seeded np sd) = (r, g2)"
      by (cases "Bermudan_dispatch np (''_calc_'' @ upper m) ?self2 (seeded np sd)")
    show ?thesis
    proof (cases r)
      case (Inl e)
      then show ?thesis
        using d Inr
        by (simp add: Bermudan_calc_px_def np_random_seed_valid [OF assms(1,2)]
            py_max_Max [OF assms(3)] n Let_def)
    next
      case (Inr s3)
      then have "tex s3 = tex1"
        using Bermudan_dispatch_tex [of np _ ?self2 _ s3 g2] d by simp
      then show ?thesis
        using d Inr \<open>knsteps numpy (Max (set tex0)) tex1 = Inr kn\<close>
        by (simp add: Bermudan_calc_px_def np_random_seed_valid [OF assms(1,2)]
            py_max_Max [OF assms(3)] n Let_def)
    qed
  qed
qed

lemma normalise_tex_schedule:
  assumes "tex0 \<noteq> []" "sorted_wrt (<) tex0" "\<forall>t\<in>set tex0. 0 < t" "0 < selfT"
    and "selfT - Max (set tex0) < 1 / 10 ^ 11 \<or> 1 / 10 ^ 11 < selfT - Max (set tex0)"
  shows "sorted_wrt (<) (snd (normalise_tex selfT (Max (set tex0)) tex0))"
    and "\<forall>t\<in>set (snd (normalise_tex selfT (Max (set tex0)) tex0)). 0 < t \<and> t \<le> selfT"
    and "snd (normalise_tex selfT (Max (set tex0)) tex0) \<noteq> []"
    and "last (snd (normalise_tex selfT (Max (set tex0)) tex0)) = selfT"
proof -
  let ?M = "Max (set tex0)"
  have M: "t \<le> ?M" if "t \<in> set tex0" for t using that by simp
  show "snd (normalise_tex selfT ?M tex0) \<noteq> []"
    using assms(5) by (auto simp: normalise_tex_def Let_def)
  show "last (snd (normalise_tex selfT ?M tex0)) = selfT"
    using assms(5) by (auto simp: normalise_tex_def Let_def)
  have bl: "t < ?M" if "t \<in> set (butlast tex0)" for t
  proof -
    have "tex0 = butlast tex0 @ [last tex0]" using assms(1) by simp
    then have "sorted_wrt (<) (butlast tex0 @ [last tex0])" using assms(2) by simp
    then have "t < last tex0" using that by (simp add: sorted_wrt_append)
    moreover have "last tex0 \<le> ?M" using assms(1) by simp
    ultimately show ?thesis by simp
  qed
  have sb: "sorted_wrt (<) (butlast tex0)"
  proof -
    have "tex0 = butlast tex0 @ [last tex0]" using assms(1) by simp
    then have "sorted_wrt (<) (butlast tex0 @ [last tex0])" using assms(2) by simp
    then show ?thesis by (simp add: sorted_wrt_append)
  qed
  show "sorted_wrt (<) (snd (normalise_tex selfT ?M tex0))"
  proof (cases "selfT - ?M < 1 / 10 ^ 11")
    case True
    then show ?thesis
      using assms(2) by (simp add: normalise_tex_def Let_def sorted_wrt_append sorted_wrt_filter)
  next
    case False
    then have g: "1 / 10 ^ 11 < selfT - ?M" using assms(5) by simp
    then have lt: "?M < selfT" by (smt (verit) zero_less_divide_1_iff zero_less_numeral zero_less_power)
    have n2: "normalise_tex selfT ?M tex0 = (False, butlast tex0 @ [selfT])"
      using False g by (simp add: normalise_tex_def Let_def)
    have "\<forall>t\<in>set (butlast tex0). t < selfT"
      using bl lt by force
    then show ?thesis
      unfolding n2 using sb by (simp add: sorted_wrt_append)
  qed
  show "\<forall>t\<in>set (snd (normalise_tex selfT ?M tex0)). 0 < t \<and> t \<le> selfT"
  proof (cases "selfT - ?M < 1 / 10 ^ 11")
    case True
    then show ?thesis
      using assms(3,4) by (auto simp: normalise_tex_def Let_def)
  next
    case False
    then have g: "1 / 10 ^ 11 < selfT - ?M" using assms(5) by simp
    then have lt: "?M < selfT" by (smt (verit) zero_less_divide_1_iff zero_less_numeral zero_less_power)
    have n2: "normalise_tex selfT ?M tex0 = (False, butlast tex0 @ [selfT])"
      using False g by (simp add: normalise_tex_def Let_def)
    have "0 < t \<and> t \<le> selfT" if "t \<in> set (butlast tex0)" for t
      using bl [OF that] lt assms(3) in_set_butlastD [OF that] by auto
    then show ?thesis
      unfolding n2 using assms(4) by auto
  qed
qed

text \<open>
  Claim C6, amended: when the seed is accepted, the maturity is positive, the schedule
  the caller supplies is not empty, strictly increasing and positive, and the gap between
  the maturity and its last date is not exactly \<open>10^-11\<close>, the schedule \<^verbatim>\<open>calc_px\<close> stores
  is strictly increasing, lies in \<open>(0, T]\<close> and ends at the maturity \<open>T\<close>.
\<close>

theorem Bermudan_stored_schedule:
  assumes "0 \<le> sd" and "sd < 2 ^ 32"
    and "tex0 \<noteq> []" and "sorted_wrt (<) tex0" and "\<forall>t\<in>set tex0. 0 < t"
    and "0 < T self"
    and "T self - Max (set tex0) < 1 / 10 ^ 11 \<or> 1 / 10 ^ 11 < T self - Max (set tex0)"
  shows "sorted_wrt (<) (tex (fst (snd (Bermudan_calc_px np m tex0 ns npth kh deg sd self g))))
     \<and> (\<forall>t\<in>set (tex (fst (snd (Bermudan_calc_px np m tex0 ns npth kh deg sd self g)))).
           0 < t \<and> t \<le> T self)
     \<and> tex (fst (snd (Bermudan_calc_px np m tex0 ns npth kh deg sd self g))) \<noteq> []
     \<and> last (tex (fst (snd (Bermudan_calc_px np m tex0 ns npth kh deg sd self g)))) = T self"
  unfolding Bermudan_calc_px_stored_tex [OF assms(1,2,3)]
  using normalise_tex_schedule [OF assms(3,4,5,6,7)] by simp

text \<open>The schedule \<open>(1, 2)\<close> at maturity 2 satisfies the hypotheses.\<close>

theorem Bermudan_stored_schedule_witness:
  "\<forall>np g. sorted_wrt (<) (tex (fst (snd (Bermudan_calc_px np ''FD'' [1, 2] None None False 3
              4294967295 (test_bermudan 0 2 [] (PriceSpec [] None None False None None)) g))))
     \<and> last (tex (fst (snd (Bermudan_calc_px np ''FD'' [1, 2] None None False 3
              4294967295 (test_bermudan 0 2 [] (PriceSpec [] None None False None None)) g)))) = 2"
proof (intro allI)
  fix np :: "('a, 'b) numpy" and g :: 'a
  let ?b = "test_bermudan 0 2 [] (PriceSpec [] None None False None None)"
  have h: "(0::int) \<le> 4294967295" "(4294967295::int) < 2 ^ 32" "[1, 2::real] \<noteq> []"
    "sorted_wrt (<) [1, 2::real]" "\<forall>t\<in>set [1, 2::real]. 0 < t" "0 < T ?b"
    "T ?b - Max (set [1, 2]) < 1 / 10 ^ 11 \<or> 1 / 10 ^ 11 < T ?b - Max (set [1, 2])"
    by (simp_all add: test_bermudan_def)
  have t: "T ?b = 2" by (simp add: test_bermudan_def)
  show "sorted_wrt (<) (tex (fst (snd (Bermudan_calc_px np ''FD'' [1, 2] None None False 3
              4294967295 ?b g))))
     \<and> last (tex (fst (snd (Bermudan_calc_px np ''FD'' [1, 2] None None False 3
              4294967295 ?b g)))) = 2"
    using Bermudan_stored_schedule [OF h, where np = np and m = "''FD''" and ns = None
        and npth = None and kh = False and deg = 3 and g = g] unfolding t
    by simp
qed

text \<open>
  The schedule \<open>(2, 1, 3)\<close> at maturity 3 is stored as it is: the call returns normally
  and the stored schedule is not increasing.
\<close>

theorem Bermudan_unsorted_schedule_is_stored:
  "(\<forall>np g. fst (Bermudan_calc_px np ''FD'' [2, 1, 3] None None False 3 4294967295
                (test_bermudan 0 3 [] (PriceSpec [] None None False None None)) g) = None
      \<and> tex (fst (snd (Bermudan_calc_px np ''FD'' [2, 1, 3] None None False 3 4294967295
                (test_bermudan 0 3 [] (PriceSpec [] None None False None None)) g))) = [2, 1, 3])
   \<and> \<not> sorted_wrt (<) [2, 1, 3 :: real]"
proof -
  have k: "knsteps True 3 [2, 1, 3] = Inr 1"
    by (simp add: knsteps_def py_max_def py_int_def)
  have n0: "normalise_tex (T (test_bermudan 0 3 [] ps)) 3 [2, 1, 3] = (True, [2, 1, 3])" for ps
    by (simp add: normalise_tex_def test_bermudan_def)
  show ?thesis
    unfolding Bermudan_calc_px_def seed_default
    by (simp add: py_max_def n0 Let_def k upper_LT Bermudan_dispatch_def Bermudan_calc_FD_def)
qed

section \<open>The finite-difference stubs\<close>

text \<open>
  Claim C8, amended: \<^verbatim>\<open>_calc_FD\<close> of Shout, Chooser and Bermudan returns the object as it
  is, with no error and no price, and \<^verbatim>\<open>Bermudan.calc_px\<close> reaches it for the method name
  \<^verbatim>\<open>'FD'\<close>.
\<close>

theorem FD_stubs_return_normally:
  "Shout_calc_FD s = Inr s \<and> Chooser_calc_FD c = Inr c \<and> Bermudan_calc_FD b = Inr b
   \<and> Bermudan_dispatch np (''_calc_'' @ upper ''FD'') b g = (Inr b, g)"
  by (simp add: Shout_calc_FD_def Chooser_calc_FD_def Bermudan_calc_FD_def
      Bermudan_dispatch_def upper_LT)

text \<open>
  A Bermudan call with \<^verbatim>\<open>method='FD'\<close> returns normally and leaves no price; so do the
  stubs of Shout and Chooser.
\<close>

theorem FD_call_returns_without_price:
  "(\<forall>np g. fst (Bermudan_calc_px np ''FD'' [1, 2] None None False 3 4294967295
                (test_bermudan 0 2 [] (PriceSpec [] None None False None None)) g) = None
      \<and> px (px_spec (fst (snd (Bermudan_calc_px np ''FD'' [1, 2] None None False 3 4294967295
                (test_bermudan 0 2 [] (PriceSpec [] None None False None None)) g)))) = None)
   \<and> Shout_calc_FD (test_shout 1 0 0 2 2 False) = Inr (test_shout 1 0 0 2 2 False)
   \<and> px (px_spec (test_shout 1 0 0 2 2 False)) = None
   \<and> Chooser_calc_FD (test_chooser 0 0 2 2 False) = Inr (test_chooser 0 0 2 2 False)
   \<and> px (px_spec (test_chooser 0 0 2 2 False)) = None"
proof -
  have k: "knsteps True 2 [1, 2] = Inr 2"
    by (simp add: knsteps_def py_max_def py_int_def)
  have n0: "normalise_tex (T (test_bermudan 0 2 [] ps)) 2 [1, 2] = (True, [1, 2])" for ps
    by (simp add: normalise_tex_def test_bermudan_def)
  have a: "fst (Bermudan_calc_px np ''FD'' [1, 2] None None False 3 4294967295
                (test_bermudan 0 2 [] (PriceSpec [] None None False None None)) g) = None
      \<and> px (px_spec (fst (snd (Bermudan_calc_px np ''FD'' [1, 2] None None False 3 4294967295
                (test_bermudan 0 2 [] (PriceSpec [] None None False None None)) g)))) = None"
    for np :: "('a, 'b) numpy" and g
    unfolding Bermudan_calc_px_def seed_default
    by (simp add: py_max_def n0 Let_def k upper_LT Bermudan_dispatch_def Bermudan_calc_FD_def)
      (simp add: PriceSpec_def)
  show ?thesis
    using a by (simp add: Shout_calc_FD_def Chooser_calc_FD_def test_shout_def test_chooser_def
        PriceSpec_def)
qed

section \<open>Bermudan: Monte Carlo pricing\<close>

lemma regression_loop_short:
  "k \<le> 1 \<Longrightarrow> regression_loop np deg paths pay k tp = Inr tp"
  by (cases k) simp_all

lemma delta_Ts_from_length: "length (delta_Ts_from prev ts) = length ts"
  by (induction ts arbitrary: prev) simp_all

lemma path_columns_length:
  "path_columns np self m dTs col g = (cols, g') \<Longrightarrow> length cols = length dTs"
  by (induction dTs arbitrary: col g cols g') (auto simp: Let_def split: prod.splits)

lemma generate_stock_price_paths_length:
  "generate_stock_price_paths np self m dTs g = Inr (paths, g')
     \<Longrightarrow> length paths = Suc (length dTs)"
  by (auto simp: generate_stock_price_paths_def Let_def split: if_splits prod.splits
      dest: path_columns_length)

lemma generate_stock_price_paths_returns:
  "0 \<le> m \<Longrightarrow> \<exists>paths g'. generate_stock_price_paths np self m dTs g = Inr (paths, g')"
  by (simp add: generate_stock_price_paths_def Let_def split: prod.splits)

lemma Bermudan_calc_MC_negative_paths:
  assumes "npaths (px_spec self) = Some m" "m < 0" "R (px_spec self) = Some deg"
  shows "Bermudan_calc_MC np self g = (Inl ValueError, g)"
  using assms by (simp add: Bermudan_calc_MC_def generate_stock_price_paths_def)

lemma Bermudan_calc_MC_short_schedule:
  assumes "npaths (px_spec self) = Some m" "0 \<le> m" "R (px_spec self) = Some deg"
    and "tex self \<noteq> []" "length (tex self) \<le> 2"
  shows "\<exists>s' v. fst (Bermudan_calc_MC np self g) = Inr s' \<and> px (px_spec s') = Some v"
proof -
  from generate_stock_price_paths_returns [OF assms(2), where np = np and self = self
      and dTs = "delta_T_array self" and g = g]
  obtain paths g' where p: "generate_stock_price_paths np self m (delta_T_array self) g = Inr (paths, g')"
    by blast
  have len: "length paths = Suc (length (tex self))"
    using generate_stock_price_paths_length [OF p]
    by (simp add: delta_T_array_def delta_Ts_from_length)
  let ?pay = "map (map (payout_np self)) paths"
  have "length (tex self) - 1 \<le> 1" using assms(5) by simp
  then have r: "regression_loop np deg paths ?pay (length (tex self) - 1) ?pay = Inr ?pay"
    by (rule regression_loop_short)
  have l2: "\<not> length ?pay < 2" using len assms(4) by (cases "tex self") simp_all
  show ?thesis
    using assms(1,3) p r l2 by (simp add: Bermudan_calc_MC_def Let_def)
qed

text \<open>
  Claim C7, amended: \<^verbatim>\<open>_calc_MC\<close> checks neither the degree \<open>R\<close> nor the number of paths
  against it. With both attributes set, a number of paths that is not negative and a
  stored schedule of one or two dates, the call returns and leaves a price, for every
  \<open>R\<close> and every such number of paths.
\<close>

theorem Bermudan_MC_no_parameter_check:
  assumes "npaths (px_spec self) = Some m" and "0 \<le> m" and "R (px_spec self) = Some deg"
    and "tex self \<noteq> []" and "length (tex self) \<le> 2"
  shows "\<exists>s' v. fst (Bermudan_calc_MC np self g) = Inr s' \<and> px (px_spec s') = Some v"
  using assms by (rule Bermudan_calc_MC_short_schedule)

lemma Bermudan_calc_px_MC_two_dates:
  assumes "0 \<le> m"
  shows "fst (Bermudan_calc_px np ''MC'' [1, 2] None (Some m) kh deg 4294967295
          (test_bermudan 0 2 tx ps) g) = None
   \<and> (\<exists>v. px (px_spec (fst (snd (Bermudan_calc_px np ''MC'' [1, 2] None (Some m) kh deg
          4294967295 (test_bermudan 0 2 tx ps) g)))) = Some v)"
proof -
  let ?ps = "PriceSpec ''MC'' (Some 2) (Some m) kh (Some deg) (Some 4294967295)"
  let ?b = "test_bermudan 0 2 [1, 2] ?ps"
  have k: "knsteps True 2 [1, 2] = Inr 2"
    by (simp add: knsteps_def py_max_def py_int_def)
  have n0: "normalise_tex (T (test_bermudan 0 2 tx ps)) 2 [1, 2] = (True, [1, 2])"
    by (simp add: normalise_tex_def test_bermudan_def)
  have u: "(test_bermudan 0 2 tx ps)\<lparr>tex := [1, 2]\<rparr>\<lparr>px_spec := ?ps\<rparr> = ?b"
    by (simp add: test_bermudan_def)
  have h: "npaths (px_spec ?b) = Some m" "0 \<le> m" "R (px_spec ?b) = Some deg" "tex ?b \<noteq> []"
    "length (tex ?b) \<le> 2"
    using assms by (simp_all add: test_bermudan_def PriceSpec_def)
  from Bermudan_calc_MC_short_schedule [OF h, of np "seeded np 4294967295"]
  obtain s' v where s: "fst (Bermudan_calc_MC np ?b (seeded np 4294967295)) = Inr s'"
    and v: "px (px_spec s') = Some v"
    by blast
  obtain g2 where r: "Bermudan_calc_MC np ?b (seeded np 4294967295) = (Inr s', g2)"
    using s by (cases "Bermudan_calc_MC np ?b (seeded np 4294967295)") simp
  have "Bermudan_calc_px np ''MC'' [1, 2] None (Some m) kh deg 4294967295
          (test_bermudan 0 2 tx ps) g = (None, s', g2)"
    unfolding Bermudan_calc_px_def seed_default
    by (simp add: py_max_def n0 Let_def k u upper_LT Bermudan_dispatch_def r)
  then show ?thesis using v by simp
qed

text \<open>One path, degree 7 and the stored schedule \<open>(1, 2)\<close>: the call returns with a price.\<close>

theorem Bermudan_MC_no_parameter_check_witness:
  "\<forall>np g. \<exists>s' v. fst (Bermudan_calc_MC np
       (test_bermudan 0 2 [1, 2] (PriceSpec ''MC'' (Some 2) (Some 1) False (Some 7) (Some 5))) g)
     = Inr s' \<and> px (px_spec s') = Some v"
proof (intro allI)
  fix np :: "('a, 'b) numpy" and g :: 'a
  let ?b = "test_bermudan 0 2 [1, 2] (PriceSpec ''MC'' (Some 2) (Some 1) False (Some 7) (Some 5))"
  have h: "npaths (px_spec ?b) = Some 1" "(0::int) \<le> 1" "R (px_spec ?b) = Some 7" "tex ?b \<noteq> []"
    "length (tex ?b) \<le> 2"
    by (simp_all add: test_bermudan_def PriceSpec_def)
  show "\<exists>s' v. fst (Bermudan_calc_MC np ?b g) = Inr s' \<and> px (px_spec s') = Some v"
    using Bermudan_MC_no_parameter_check [OF h, of np g] .
qed

text \<open>
  Through \<^verbatim>\<open>calc_px\<close> with \<open>R = 7\<close> (outside \<open>[0,6]\<close>) and one path (fewer than \<open>R + 1\<close>): no
  error is raised and a price is left in the price specification.
\<close>

theorem Bermudan_MC_accepts_degree_seven:
  "\<forall>np g. fst (Bermudan_calc_px np ''MC'' [1, 2] None (Some 1) False 7 4294967295
                (test_bermudan 0 2 [] (PriceSpec [] None None False None None)) g) = None
      \<and> (\<exists>v. px (px_spec (fst (snd (Bermudan_calc_px np ''MC'' [1, 2] None (Some 1) False 7
                4294967295 (test_bermudan 0 2 [] (PriceSpec [] None None False None None)) g))))
             = Some v)"
  by (intro allI) (rule Bermudan_calc_px_MC_two_dates, simp)

section \<open>Bermudan: the result is a function of the inputs and the seed\<close>

text \<open>
  Claim C9: with a seed numpy accepts, two calls of \<^verbatim>\<open>calc_px\<close> with the same arguments on
  the same option raise the same exception or none, and leave the generator in the same
  state, whatever the state of the generator, the stored schedule and the price
  specification were before; when no exception is raised they leave the same object, so
  the same price and, with \<^verbatim>\<open>keep_hist\<close>, the same matrix of stock price paths.
\<close>

theorem Bermudan_calc_px_deterministic:
  assumes "0 \<le> sd" and "sd < 2 ^ 32"
  shows "fst (Bermudan_calc_px np m tex0 ns npth kh deg sd (self\<lparr>tex := t1, px_spec := ps1\<rparr>) g1)
       = fst (Bermudan_calc_px np m tex0 ns npth kh deg sd (self\<lparr>tex := t2, px_spec := ps2\<rparr>) g2)
     \<and> snd (snd (Bermudan_calc_px np m tex0 ns npth kh deg sd (self\<lparr>tex := t1, px_spec := ps1\<rparr>) g1))
       = snd (snd (Bermudan_calc_px np m tex0 ns npth kh deg sd (self\<lparr>tex := t2, px_spec := ps2\<rparr>) g2))
     \<and> (fst (Bermudan_calc_px np m tex0 ns npth kh deg sd (self\<lparr>tex := t1, px_spec := ps1\<rparr>) g1) = None
          \<longrightarrow> fst (snd (Bermudan_calc_px np m tex0 ns npth kh deg sd (self\<lparr>tex := t1, px_spec := ps1\<rparr>) g1))
              = fst (snd (Bermudan_calc_px np m tex0 ns npth kh deg sd (self\<lparr>tex := t2, px_spec := ps2\<rparr>) g2)))"
  unfolding Bermudan_calc_px_def np_random_seed_valid [OF assms]
  by (simp add: Let_def split: sum.splits prod.splits)

text \<open>
  Two Monte Carlo calls with the default seed, from different generator states and
  different stale attributes, leave the same result.
\<close>

theorem Bermudan_calc_px_deterministic_witness:
  "\<forall>np g1 g2.
     Bermudan_calc_px np ''MC'' [1, 2] None (Some 2) True 3 4294967295
        (test_bermudan 0 2 [] (PriceSpec [] None None False None None)) g1
   = Bermudan_calc_px np ''MC'' [1, 2] None (Some 2) True 3 4294967295
        (test_bermudan 0 2 [7] (PriceSpec ''LT'' (Some 1) None True None None)) g2"
proof (intro allI)
  fix np :: "('a, 'b) numpy" and g1 g2 :: 'a
  let ?b = "test_bermudan 0 2 [] (PriceSpec [] None None False None None)"
  let ?b2 = "test_bermudan 0 2 [7] (PriceSpec ''LT'' (Some 1) None True None None)"
  have h: "(0::int) \<le> 4294967295" "(4294967295::int) < 2 ^ 32" by simp_all
  have u1: "?b\<lparr>tex := [], px_spec := PriceSpec [] None None False None None\<rparr> = ?b"
    by (simp add: test_bermudan_def)
  have u2: "?b\<lparr>tex := [7], px_spec := PriceSpec ''LT'' (Some 1) None True None None\<rparr> = ?b2"
    by (simp add: test_bermudan_def)
  have "(0::int) \<le> 2" by simp
  from Bermudan_calc_px_MC_two_dates [OF this]
  have ok: "fst (Bermudan_calc_px np ''MC'' [1, 2] None (Some 2) True 3 4294967295 ?b g1) = None"
    by (rule conjunct1)
  show "Bermudan_calc_px np ''MC'' [1, 2] None (Some 2) True 3 4294967295 ?b g1
   = Bermudan_calc_px np ''MC'' [1, 2] None (Some 2) True 3 4294967295 ?b2 g2"
    using Bermudan_calc_px_deterministic [OF h, where np = np and m = "''MC''"
        and ?tex0.0 = "[1, 2]" and ns = None and npth = "Some 2" and kh = True and deg = 3
        and self = ?b and ?t1.0 = "[]" and ?ps1.0 = "PriceSpec [] None None False None None"
        and ?g1.0 = g1 and ?t2.0 = "[7]"
        and ?ps2.0 = "PriceSpec ''LT'' (Some 1) None True None None" and ?g2.0 = g2] ok
    unfolding u1 u2 by (simp add: prod_eq_iff)
qed

end
